theory Spec2Isabelle
  imports Complex_Main "HOL-Library.Product_Lexorder"
begin

section \<open>Numbers and errors\<close>

text \<open>
  The programs compute with Python floats and ints. A finite float is modelled by the
  real number it denotes. The two special values the sources write down,
  \<^verbatim>\<open>float("inf")\<close> and \<^verbatim>\<open>float("nan")\<close>, are constructors of their own.

  In the staffing functions of \<^verbatim>\<open>wfm_math.py\<close> (\<^verbatim>\<open>required_agents_for_sla\<close>,
  \<^verbatim>\<open>required_agents_realtime\<close>, \<^verbatim>\<open>required_agents_throughput\<close>) the float operations
  whose results reach \<^verbatim>\<open>math.ceil\<close> are rounded to doubles, and so are the float
  literals there; a result that overflows is infinite, stays infinite through the
  divisions that follow, and makes \<^verbatim>\<open>math.ceil\<close> raise \<^verbatim>\<open>OverflowError\<close>. The arguments
  annotated \<^verbatim>\<open>float\<close> are finite doubles. In the Erlang C
  functions, the forecaster and the simulator arithmetic on finite floats is exact.

  Two more operations of \<^verbatim>\<open>wfm_math.py\<close> raise \<^verbatim>\<open>OverflowError\<close> in CPython when their
  result leaves the range of a double: \<^verbatim>\<open>float(i)\<close> for an int \<open>i\<close> and \<^verbatim>\<open>a ** k\<close> for a
  float \<open>a\<close>. A value leaves the range when rounding it to the nearest double gives
  \<open>2^1024\<close>, that is from \<open>2^1024 - 2^970\<close> on. All these raises are branches of the model.
\<close>

datatype py_error = TypeError | OverflowError

datatype pyfloat = Fin real | PInf | NaN

definition float_overflows :: "real \<Rightarrow> bool" where
  "float_overflows x \<longleftrightarrow> 2 ^ 1024 - 2 ^ 970 \<le> \<bar>x\<bar>"

text \<open>\<^verbatim>\<open>a ** k\<close> for a float \<open>a\<close> and an int \<open>k \<ge> 0\<close>.\<close>

definition float_pow :: "real \<Rightarrow> nat \<Rightarrow> py_error + real" where
  "float_pow a k = (if float_overflows (a ^ k) then Inl OverflowError else Inr (a ^ k))"

section \<open>wfm\_math.py: the queueing model\<close>

record ErlangResult =
  traffic_erlangs :: real
  agents :: int
  prob_wait :: real
  asa_seconds :: pyfloat
  service_level :: real

record StaffingResult =
  available_agents :: int
  scheduled_agents :: int

text \<open>
  \<^verbatim>\<open>_factorial(n) = float(math.factorial(n))\<close>: the factorial is an exact int, the
  conversion to float raises when it is too large. (The source's name starts with an
  underscore, which a constant's name cannot.)
\<close>

definition factorial :: "nat \<Rightarrow> py_error + real" where
  "factorial n =
     (if float_overflows (real (fact n)) then Inl OverflowError else Inr (real (fact n)))"

text \<open>
  The loop \<^verbatim>\<open>for k in range(0, n): s += (a**k) / _factorial(k)\<close>, over the list of the
  values of \<open>k\<close> still to come, with the running sum \<open>s\<close>. The left operand \<^verbatim>\<open>a**k\<close> is
  evaluated first.
\<close>

fun series_loop :: "real \<Rightarrow> nat list \<Rightarrow> real \<Rightarrow> py_error + real" where
  "series_loop a [] s = Inr s"
| "series_loop a (k # ks) s =
     (case float_pow a k of
        Inl e \<Rightarrow> Inl e
      | Inr p \<Rightarrow>
          (case factorial k of
             Inl e \<Rightarrow> Inl e
           | Inr f \<Rightarrow> series_loop a ks (s + p / f)))"

definition erlang_c_prob_wait :: "real \<Rightarrow> int \<Rightarrow> py_error + real" where
  "erlang_c_prob_wait traffic n_agents =
     (if n_agents \<le> 0 \<or> traffic \<le> 0 then Inr 1
      else if traffic \<ge> real_of_int n_agents then Inr 1
      else
        (let a = traffic; n = nat n_agents in
         case series_loop a [0..<n] 0 of
           Inl e \<Rightarrow> Inl e
         | Inr s \<Rightarrow>
             (case float_pow a n of
                Inl e \<Rightarrow> Inl e
              | Inr p \<Rightarrow>
                  (case factorial n of
                     Inl e \<Rightarrow> Inl e
                   | Inr f \<Rightarrow>
                       (let numer = p / f * (real n / (real n - a));
                            denom = s + numer
                        in if denom \<le> 0 then Inr 1
                           else Inr (max 0 (min 1 (numer / denom))))))))"

definition erlang_c_asa_seconds :: "real \<Rightarrow> int \<Rightarrow> real \<Rightarrow> py_error + pyfloat" where
  "erlang_c_asa_seconds traffic n_agents aht =
     (if aht \<le> 0 then Inr PInf
      else if n_agents \<le> 0 then Inr PInf
      else if traffic \<le> 0 then Inr (Fin 0)
      else if traffic \<ge> real_of_int n_agents then Inr PInf
      else
        (case erlang_c_prob_wait traffic n_agents of
           Inl e \<Rightarrow> Inl e
         | Inr pw \<Rightarrow>
             Inr (Fin ((pw * aht) / max (1 / 10 ^ 9) (real_of_int n_agents - traffic)))))"

definition erlang_c_service_level :: "real \<Rightarrow> int \<Rightarrow> real \<Rightarrow> real \<Rightarrow> py_error + real" where
  "erlang_c_service_level traffic n_agents aht thr =
     (if thr \<le> 0 then Inr 0
      else if aht \<le> 0 then Inr 0
      else if n_agents \<le> 0 then Inr 0
      else if traffic \<le> 0 then Inr 1
      else if traffic \<ge> real_of_int n_agents then Inr 0
      else
        (case erlang_c_prob_wait traffic n_agents of
           Inl e \<Rightarrow> Inl e
         | Inr pw \<Rightarrow>
             (let exponent = - (real_of_int n_agents - traffic) * (thr / aht)
              in Inr (max 0 (min 1 (1 - pw * exp exponent))))))"

definition erlang_metrics ::
  "real \<Rightarrow> int \<Rightarrow> real \<Rightarrow> int \<Rightarrow> real \<Rightarrow> py_error + ErlangResult" where
  "erlang_metrics contacts interval_seconds aht n_agents thr =
     (let traffic = (contacts * aht) / real_of_int (max 1 interval_seconds) in
      case erlang_c_prob_wait traffic n_agents of
        Inl e \<Rightarrow> Inl e
      | Inr pw \<Rightarrow>
          (case erlang_c_asa_seconds traffic n_agents aht of
             Inl e \<Rightarrow> Inl e
           | Inr asa \<Rightarrow>
               (case erlang_c_service_level traffic n_agents aht thr of
                  Inl e \<Rightarrow> Inl e
                | Inr sl \<Rightarrow>
                    Inr \<lparr>traffic_erlangs = traffic, agents = n_agents, prob_wait = pw,
                         asa_seconds = asa, service_level = sl\<rparr>)))"

section \<open>Rounding to doubles\<close>

text \<open>
  Rounding to the nearest double, ties to even. A double has 53 significant bits, so a
  value in the binade \<open>2^e \<le> |x| < 2^(e+1)\<close> is rounded to a multiple of \<open>2^(e-52)\<close>;
  below \<open>2^(-1022)\<close> the doubles are subnormal, all multiples of \<open>2^(-1074)\<close>. Overflow
  is tested apart, by \<open>float_overflows\<close>.
\<close>

definition round_half_even :: "real \<Rightarrow> int" where
  "round_half_even x =
     (let f = \<lfloor>x\<rfloor>; d = x - of_int f
      in if d < 1 / 2 then f
         else if 1 / 2 < d then f + 1
         else if even f then f else f + 1)"

definition round_double :: "real \<Rightarrow> real" where
  "round_double x =
     (if x = 0 then 0
      else (let e = max \<lfloor>log 2 \<bar>x\<bar>\<rfloor> (- 1022);
                u = 2 powr (of_int e - 52)
            in of_int (round_half_even (x / u)) * u))"

section \<open>wfm\_math.py: the staffing solver\<close>

text \<open>
  The search loop \<^verbatim>\<open>for n in range(start, max_agents + 1)\<close> of
  \<^verbatim>\<open>required_agents_for_sla\<close>, over the list of the agent counts still to try. The
  fall-through \<^verbatim>\<open>return max_agents\<close> is the empty list's case.
\<close>

fun sla_search :: "real \<Rightarrow> real \<Rightarrow> real \<Rightarrow> real \<Rightarrow> int \<Rightarrow> int list \<Rightarrow> py_error + int" where
  "sla_search traffic aht thr target max_agents [] = Inr max_agents"
| "sla_search traffic aht thr target max_agents (n # ns) =
     (case erlang_c_service_level traffic n aht thr of
        Inl e \<Rightarrow> Inl e
      | Inr sl \<Rightarrow>
          if sl \<ge> target then Inr n
          else sla_search traffic aht thr target max_agents ns)"

text \<open>
  The traffic intensity \<^verbatim>\<open>(contacts * aht_seconds) / max(1, interval_seconds)\<close> is
  computed in doubles. The division converts the int \<^verbatim>\<open>max(1, interval_seconds)\<close> to a
  float and raises \<^verbatim>\<open>OverflowError\<close> when it is too large. When the product
  \<^verbatim>\<open>contacts * aht_seconds\<close> overflows, the traffic is infinite and
  \<^verbatim>\<open>math.ceil(traffic)\<close> raises \<^verbatim>\<open>OverflowError\<close>. The quotient of two finite doubles
  with a divisor of at least 1 is finite.
\<close>

definition required_agents_for_sla ::
  "real \<Rightarrow> int \<Rightarrow> real \<Rightarrow> real \<Rightarrow> real \<Rightarrow> int \<Rightarrow> py_error + int" where
  "required_agents_for_sla contacts interval_seconds aht thr target max_agents =
     (if float_overflows (contacts * aht)
         \<or> float_overflows (real_of_int (max 1 interval_seconds))
      then Inl OverflowError
      else
        (let traffic =
               round_double (round_double (contacts * aht)
                              / round_double (real_of_int (max 1 interval_seconds)));
             start = max 1 \<lceil>traffic\<rceil>
         in sla_search traffic aht thr target max_agents [start..max_agents]))"

definition apply_shrinkage :: "real \<Rightarrow> real \<Rightarrow> real" where
  "apply_shrinkage scheduled shrinkage_rate =
     (let r = max 0 (min (95 / 100) shrinkage_rate)
      in max 0 (scheduled * (1 - r)))"

definition erlang_c_summary ::
  "real \<Rightarrow> int \<Rightarrow> real \<Rightarrow> int \<Rightarrow> real \<Rightarrow> py_error + ErlangResult" where
  "erlang_c_summary contacts interval_seconds aht n_agents thr =
     erlang_metrics contacts interval_seconds aht n_agents thr"

text \<open>
  \<^verbatim>\<open>required_agents_realtime\<close> calls \<^verbatim>\<open>required_agents_for_sla\<close> without
  \<^verbatim>\<open>max_agents\<close>, so with its default 500. The conversion to scheduled agents,
  \<^verbatim>\<open>int(math.ceil(required_available / max(1e-9, (1.0 - r))))\<close>, is computed in doubles.
\<close>

definition required_agents_realtime ::
  "real \<Rightarrow> int \<Rightarrow> real \<Rightarrow> real \<Rightarrow> real \<Rightarrow> real \<Rightarrow> py_error + StaffingResult" where
  "required_agents_realtime contacts interval_seconds aht thr target shrinkage_rate =
     (case required_agents_for_sla contacts interval_seconds aht thr target 500 of
        Inl e \<Rightarrow> Inl e
      | Inr required_available \<Rightarrow>
          (let r = max 0 (min (round_double (95 / 100)) shrinkage_rate);
               quotient =
                 real_of_int required_available
                   / max (round_double (1 / 10 ^ 9)) (round_double (1 - r))
           in if float_overflows quotient then Inl OverflowError
              else Inr \<lparr>available_agents = required_available,
                        scheduled_agents = \<lceil>round_double quotient\<rceil>\<rparr>))"

text \<open>
  \<^verbatim>\<open>required_agents_throughput\<close>, in doubles: the product, the two divisions and the
  conversion to scheduled agents are rounded, the int \<^verbatim>\<open>max(1, interval_seconds)\<close> is
  converted to a float, and each \<^verbatim>\<open>math.ceil\<close> raises on an infinite operand.
\<close>

definition required_agents_throughput ::
  "real \<Rightarrow> int \<Rightarrow> real \<Rightarrow> real \<Rightarrow> real \<Rightarrow> py_error + StaffingResult" where
  "required_agents_throughput contacts interval_seconds aht shrinkage_rate productivity =
     (let prod = max (round_double (1 / 10)) productivity
      in if float_overflows (contacts * aht)
            \<or> float_overflows (real_of_int (max 1 interval_seconds))
         then Inl OverflowError
         else
           (let per_agent =
                  round_double (round_double (contacts * aht)
                                 / round_double (real_of_int (max 1 interval_seconds))) / prod
            in if float_overflows per_agent then Inl OverflowError
               else
                 (let required_available = \<lceil>round_double per_agent\<rceil>;
                      r = max 0 (min (round_double (95 / 100)) shrinkage_rate);
                      quotient =
                        real_of_int required_available
                          / max (round_double (1 / 10 ^ 9)) (round_double (1 - r))
                  in if float_overflows quotient then Inl OverflowError
                     else Inr \<lparr>available_agents = required_available,
                               scheduled_agents = \<lceil>round_double quotient\<rceil>\<rparr>)))"

section \<open>generate\_sample\_data.py: the available agents, and the doubles of the examples\<close>

text \<open>
  The available agents of a schedule, as \<^verbatim>\<open>generate_sample_data.py\<close> computes them:
  \<^verbatim>\<open>int(max(0, math.floor(scheduled * (1.0 - shrinkage))))\<close>, in doubles.
\<close>

definition available_double :: "int \<Rightarrow> real \<Rightarrow> int" where
  "available_double scheduled shrinkage =
     max 0 \<lfloor>round_double (real_of_int scheduled * round_double (1 - shrinkage))\<rfloor>"

text \<open>
  The doubles of the examples below: the literals \<^verbatim>\<open>0.1\<close>, \<^verbatim>\<open>0.95\<close>, \<^verbatim>\<open>0.32\<close> and
  \<^verbatim>\<open>1e-9\<close>, the difference \<^verbatim>\<open>1.0 - 0.32\<close>, printed \<^verbatim>\<open>0.6799999999999999\<close>, and the
  product \<^verbatim>\<open>75 * (1.0 - 0.32)\<close>, printed \<^verbatim>\<open>50.99999999999999\<close>.
\<close>

definition dbl_0_1 :: real where "dbl_0_1 = 3602879701896397 / 2 ^ 55"
definition dbl_0_95 :: real where "dbl_0_95 = 4278419646001971 / 2 ^ 52"
definition dbl_0_32 :: real where "dbl_0_32 = 5764607523034235 / 2 ^ 54"
definition dbl_1e_9 :: real where "dbl_1e_9 = 4835703278458517 / 2 ^ 82"
definition dbl_0_68 :: real where "dbl_0_68 = 3062447746611937 / 2 ^ 52"
definition dbl_50_99 :: real where "dbl_50_99 = 7177611906121727 / 2 ^ 47"

text \<open>The quotient \<^verbatim>\<open>40 / 0.75\<close>, printed \<^verbatim>\<open>53.333333333333336\<close>.\<close>

definition dbl_53_33 :: real where "dbl_53_33 = 7505999378950827 / 2 ^ 47"

text \<open>
  The literal \<^verbatim>\<open>0.3\<close>, the difference \<^verbatim>\<open>1.0 - 0.3\<close>, printed \<^verbatim>\<open>0.7\<close>, and the quotient
  \<^verbatim>\<open>21 / (1.0 - 0.3)\<close>, printed \<^verbatim>\<open>30.000000000000004\<close>.
\<close>

definition dbl_0_3 :: real where "dbl_0_3 = 5404319552844595 / 2 ^ 54"
definition dbl_0_7 :: real where "dbl_0_7 = 3152519739159347 / 2 ^ 52"
definition dbl_30_0 :: real where "dbl_30_0 = 8444249301319681 / 2 ^ 48"

section \<open>The Erlang C formula\<close>

text \<open>
  The quantities that \<^verbatim>\<open>erlang_c_prob_wait\<close> computes when nothing overflows: the partial
  exponential sum, the numerator, and their ratio, the Erlang C probability of waiting.
\<close>

definition erlang_sum :: "real \<Rightarrow> nat \<Rightarrow> real" where
  "erlang_sum a n = (\<Sum>k<n. a ^ k / fact k)"

definition erlang_numer :: "real \<Rightarrow> nat \<Rightarrow> real" where
  "erlang_numer a n = a ^ n / fact n * (real n / (real n - a))"

definition erlang_c :: "real \<Rightarrow> nat \<Rightarrow> real" where
  "erlang_c a n = erlang_numer a n / (erlang_sum a n + erlang_numer a n)"

section \<open>forecast\_and\_simulate.py: tables\<close>

text \<open>
  A data frame is the list of its rows, a row a record of the columns the code reads. A
  timestamp is the number of seconds since 1970-01-01 00:00 (the frames carry no time
  zone). The contact, forecast and staffing frames all carry the series key \<open>channel\<close>,
  \<open>queue\<close>.
\<close>

type_synonym timestamp = int

record series_key =
  channel :: string
  queue :: string

record timed_row = series_key +
  interval_start :: timestamp

record contact_row = timed_row +
  offered_contacts :: real

record forecast_row = timed_row +
  forecast_offered :: real

record staffing_ref_row = series_key +
  cost_per_hour :: real
  shrinkage_rate :: real
  sla_threshold_seconds :: real
  aht_seconds :: real
  is_realtime :: bool

text \<open>
  \<^verbatim>\<open>dt.floor("D")\<close> as a day number, \<^verbatim>\<open>dt.dayofweek\<close> (Monday is 0; day 0 was a
  Thursday), \<^verbatim>\<open>dt.hour\<close> and \<^verbatim>\<open>dt.minute\<close>.
\<close>

definition day_of :: "timestamp \<Rightarrow> int" where
  "day_of ts = ts div 86400"

definition dayofweek :: "timestamp \<Rightarrow> int" where
  "dayofweek ts = (day_of ts + 3) mod 7"

definition hour_of :: "timestamp \<Rightarrow> int" where
  "hour_of ts = (ts mod 86400) div 3600"

definition minute_of :: "timestamp \<Rightarrow> int" where
  "minute_of ts = (ts mod 3600) div 60"

text \<open>\<^verbatim>\<open>_time_bucket\<close>, for one timestamp.\<close>

definition time_bucket :: "timestamp \<Rightarrow> int \<Rightarrow> int" where
  "time_bucket ts interval_minutes =
     (let minutes_from_midnight = hour_of ts * 60 + minute_of ts
      in minutes_from_midnight div interval_minutes)"

section \<open>forecast\_and\_simulate.py: the forecaster\<close>

text \<open>
  The fitted model is the dict of \<^verbatim>\<open>_fit_profile_and_trend\<close>. Its \<^verbatim>\<open>profile\<close> frame has
  the columns \<open>dow\<close>, \<open>bucket\<close> and \<open>profile\<close>; the last is the field \<open>profile_value\<close> here,
  since the name \<open>profile\<close> is taken by the model's own field.
\<close>

record profile_row =
  dow :: int
  bucket :: int
  profile_value :: real

record SeriesModel =
  profile :: "profile_row list"
  trend_slope :: real
  trend_intercept :: real
  base_level :: real

definition mean :: "real list \<Rightarrow> real" where
  "mean xs = sum_list xs / real (length xs)"

definition median :: "real list \<Rightarrow> real" where
  "median xs =
     (let ys = sort xs; n = length ys
      in if odd n then ys ! (n div 2)
         else (ys ! (n div 2 - 1) + ys ! (n div 2)) / 2)"

text \<open>
  \<^verbatim>\<open>df.groupby(["dow", "bucket"])["offered_contacts"].median()\<close>: one row for each key
  that occurs, in the order of the keys.
\<close>

definition profile_key :: "contact_row \<Rightarrow> int \<Rightarrow> int \<times> int" where
  "profile_key r interval_minutes =
     (dayofweek (interval_start r), time_bucket (interval_start r) interval_minutes)"

definition median_profile :: "contact_row list \<Rightarrow> int \<Rightarrow> profile_row list" where
  "median_profile df interval_minutes =
     map (\<lambda>k. \<lparr>dow = fst k, bucket = snd k,
               profile_value =
                 median (map offered_contacts
                   (filter (\<lambda>r. profile_key r interval_minutes = k) df))\<rparr>)
       (sort (remdups (map (\<lambda>r. profile_key r interval_minutes) df)))"

text \<open>
  \<^verbatim>\<open>df.resample("D", on="interval_start")["offered_contacts"].sum()\<close>: one total for each
  calendar day from the first day with a row to the last one, 0 for a day without rows.
\<close>

definition daily_totals :: "contact_row list \<Rightarrow> real list" where
  "daily_totals df =
     (if df = [] then []
      else
        (let days = map (\<lambda>r. day_of (interval_start r)) df
         in map (\<lambda>d. sum_list (map offered_contacts
                         (filter (\<lambda>r. day_of (interval_start r) = d) df)))
              [Min (set days)..Max (set days)]))"

definition fit_profile_and_trend :: "contact_row list \<Rightarrow> int \<Rightarrow> SeriesModel" where
  "fit_profile_and_trend series_df interval_minutes =
     (let daily = daily_totals series_df;
          (slope, intercept) =
            (if length daily \<ge> 7 then
               (let x = map real [0..<length daily];
                    y = daily;
                    x_mean = mean x;
                    y_mean = mean y;
                    denom = (\<Sum>xi\<leftarrow>x. (xi - x_mean) ^ 2);
                    slope =
                      (if denom = 0 then 0
                       else (\<Sum>(xi, yi)\<leftarrow>zip x y. (xi - x_mean) * (yi - y_mean)) / denom)
                in (slope, y_mean - slope * x_mean))
             else (0, if length daily \<noteq> 0 then mean daily else 0))
      in \<lparr>profile = median_profile series_df interval_minutes,
          trend_slope = slope,
          trend_intercept = intercept,
          base_level =
            (if length daily \<noteq> 0
             then max (1 / 10 ^ 6) (mean (drop (length daily - 28) daily))
             else 1)\<rparr>)"

text \<open>
  \<^verbatim>\<open>str(i)\<close> for an int: its decimal digits, after a minus sign when it is negative.
  \<open>digits_value\<close> reads the digits back.
\<close>

fun digits :: "nat \<Rightarrow> string" where
  "digits n =
     (if n < 10 then [char_of (48 + n)]
      else digits (n div 10) @ [char_of (48 + n mod 10)])"

declare digits.simps [simp del]

definition str_int :: "int \<Rightarrow> string" where
  "str_int i = (if i < 0 then CHR ''-'' # digits (nat (- i)) else digits (nat i))"

definition digits_value :: "string \<Rightarrow> nat" where
  "digits_value cs = foldl (\<lambda>acc c. 10 * acc + (of_char c - 48)) 0 cs"

text \<open>
  \<^verbatim>\<open>_forecast_series\<close>. The lookup key of a slot is the string
  \<^verbatim>\<open>str(dow) + "_" + str(bucket)\<close>, and \<^verbatim>\<open>dict(zip(...))\<close> keeps the last value of a
  repeated key.
\<close>

definition slot_key :: "int \<Rightarrow> int \<Rightarrow> string" where
  "slot_key d b = str_int d @ ''_'' @ str_int b"

definition prof_map :: "profile_row list \<Rightarrow> string \<rightharpoonup> real" where
  "prof_map prof = map_of (rev (map (\<lambda>r. (slot_key (dow r) (bucket r), profile_value r)) prof))"

text \<open>
  The dense rank of a row's day among the days of the index, minus 1: the number of
  distinct days of the index before it.
\<close>

definition day_ord :: "timestamp list \<Rightarrow> timestamp \<Rightarrow> real" where
  "day_ord future_index ts =
     real (length (remdups (filter (\<lambda>d. d < day_of ts) (map day_of future_index))))"

definition daily_total :: "SeriesModel \<Rightarrow> timestamp list \<Rightarrow> timestamp \<Rightarrow> real" where
  "daily_total model future_index ts =
     max 0 (trend_intercept model + trend_slope model * day_ord future_index ts)"

text \<open>\<^verbatim>\<open>model["profile"].groupby("dow")["profile"].sum().to_dict()\<close>.\<close>

definition prof_totals :: "profile_row list \<Rightarrow> int \<rightharpoonup> real" where
  "prof_totals prof d =
     (if d \<in> set (map dow prof)
      then Some (sum_list (map profile_value (filter (\<lambda>r. dow r = d) prof)))
      else None)"

definition expected_total :: "profile_row list \<Rightarrow> int \<Rightarrow> real" where
  "expected_total prof d =
     max (1 / 10 ^ 6) (case prof_totals prof d of Some t \<Rightarrow> t | None \<Rightarrow> 1)"

definition forecast_at :: "SeriesModel \<Rightarrow> timestamp list \<Rightarrow> int \<Rightarrow> timestamp \<Rightarrow> real" where
  "forecast_at model future_index interval_minutes ts =
     (let base =
            (case prof_map (profile model)
                    (slot_key (dayofweek ts) (time_bucket ts interval_minutes)) of
               Some v \<Rightarrow> v
             | None \<Rightarrow> 0)
      in base * (daily_total model future_index ts
                  / expected_total (profile model) (dayofweek ts)))"

definition forecast_series :: "SeriesModel \<Rightarrow> timestamp list \<Rightarrow> int \<Rightarrow> real list" where
  "forecast_series model future_index interval_minutes =
     map (forecast_at model future_index interval_minutes) future_index"

section \<open>forecast\_and\_simulate.py: keyword calls\<close>

text \<open>
  The simulator calls the solver with keyword arguments only. A signature is the list
  of the parameter names, each with its default if it has one; a call is the list of
  the keywords with their values. Python binds them before the body runs and raises
  \<^verbatim>\<open>TypeError\<close> for a keyword that is no parameter, and for a parameter without default
  that gets no value. An argument, int or float, is the real number it denotes; a
  parameter used as an int is read back with \<open>floor\<close>.
\<close>

type_synonym signature = "(string \<times> real option) list"

type_synonym kwargs = "(string \<times> real) list"

definition bind_keywords :: "signature \<Rightarrow> kwargs \<Rightarrow> py_error + (string \<Rightarrow> real)" where
  "bind_keywords params kws =
     (if list_ex (\<lambda>k. k \<notin> set (map fst params)) (map fst kws) then Inl TypeError
      else if list_ex (\<lambda>p. snd p = None \<and> fst p \<notin> set (map fst kws)) params
        then Inl TypeError
      else Inr (\<lambda>p. case map_of kws p of
                       Some v \<Rightarrow> v
                     | None \<Rightarrow> (case map_of params p of Some (Some d) \<Rightarrow> d | _ \<Rightarrow> 0)))"

definition required_agents_realtime_params :: signature where
  "required_agents_realtime_params =
     [(''contacts'', None), (''interval_seconds'', None), (''aht_seconds'', None),
      (''sla_threshold_seconds'', None), (''sla_target'', None),
      (''shrinkage_rate'', Some 0)]"

definition required_agents_throughput_params :: signature where
  "required_agents_throughput_params =
     [(''contacts'', None), (''interval_seconds'', None), (''aht_seconds'', None),
      (''shrinkage_rate'', Some 0), (''productivity'', Some 1)]"

definition erlang_c_summary_params :: signature where
  "erlang_c_summary_params =
     [(''contacts'', None), (''interval_seconds'', None), (''aht_seconds'', None),
      (''agents'', None), (''sla_threshold_seconds'', None)]"

definition call_required_agents_realtime :: "kwargs \<Rightarrow> py_error + StaffingResult" where
  "call_required_agents_realtime kws =
     (case bind_keywords required_agents_realtime_params kws of
        Inl e \<Rightarrow> Inl e
      | Inr arg \<Rightarrow>
          required_agents_realtime (arg ''contacts'') \<lfloor>arg ''interval_seconds''\<rfloor>
            (arg ''aht_seconds'') (arg ''sla_threshold_seconds'') (arg ''sla_target'')
            (arg ''shrinkage_rate''))"

definition call_required_agents_throughput :: "kwargs \<Rightarrow> py_error + StaffingResult" where
  "call_required_agents_throughput kws =
     (case bind_keywords required_agents_throughput_params kws of
        Inl e \<Rightarrow> Inl e
      | Inr arg \<Rightarrow>
          required_agents_throughput (arg ''contacts'') \<lfloor>arg ''interval_seconds''\<rfloor>
            (arg ''aht_seconds'') (arg ''shrinkage_rate'') (arg ''productivity''))"

definition call_erlang_c_summary :: "kwargs \<Rightarrow> py_error + ErlangResult" where
  "call_erlang_c_summary kws =
     (case bind_keywords erlang_c_summary_params kws of
        Inl e \<Rightarrow> Inl e
      | Inr arg \<Rightarrow>
          erlang_c_summary (arg ''contacts'') \<lfloor>arg ''interval_seconds''\<rfloor>
            (arg ''aht_seconds'') \<lfloor>arg ''agents''\<rfloor> (arg ''sla_threshold_seconds''))"

section \<open>forecast\_and\_simulate.py: the scenario simulator\<close>

record Scenario =
  scenario_id :: string
  name :: string
  demand_multiplier :: real
  shrinkage_delta :: real
  wage_multiplier :: real
  staffing_buffer :: real

definition DEFAULT_SCENARIOS :: "Scenario list" where
  "DEFAULT_SCENARIOS =
     [\<lparr>scenario_id = ''base'', name = ''Baseline'', demand_multiplier = 1,
        shrinkage_delta = 0, wage_multiplier = 1, staffing_buffer = 8 / 100\<rparr>,
      \<lparr>scenario_id = ''hi_demand'', name = ''High demand (+10%)'',
        demand_multiplier = 11 / 10, shrinkage_delta = 0, wage_multiplier = 1,
        staffing_buffer = 8 / 100\<rparr>,
      \<lparr>scenario_id = ''lo_demand'', name = ''Low demand (-10%)'',
        demand_multiplier = 9 / 10, shrinkage_delta = 0, wage_multiplier = 1,
        staffing_buffer = 8 / 100\<rparr>,
      \<lparr>scenario_id = ''hi_shrink'', name = ''Shrinkage up (+5pp)'', demand_multiplier = 1,
        shrinkage_delta = 5 / 100, wage_multiplier = 1, staffing_buffer = 8 / 100\<rparr>,
      \<lparr>scenario_id = ''lo_shrink'', name = ''Shrinkage down (-5pp)'', demand_multiplier = 1,
        shrinkage_delta = - (5 / 100), wage_multiplier = 1, staffing_buffer = 8 / 100\<rparr>,
      \<lparr>scenario_id = ''wage_up'', name = ''Wage up (+10%)'', demand_multiplier = 1,
        shrinkage_delta = 0, wage_multiplier = 11 / 10, staffing_buffer = 8 / 100\<rparr>,
      \<lparr>scenario_id = ''aggressive'', name = ''Aggressive service (buffer 20%)'',
        demand_multiplier = 1, shrinkage_delta = 0, wage_multiplier = 1,
        staffing_buffer = 20 / 100\<rparr>]"

text \<open>
  The left merge of the forecast with the reference frame, after
  \<^verbatim>\<open>drop_duplicates(subset=["channel", "queue"])\<close>, which keeps the first reference row of
  each key: every forecast row gets that row's columns, or \<open>NaN\<close> in all of them
  (\<open>None\<close> here) when its key has no reference row.
\<close>

record merged_row =
  forecast :: forecast_row
  ref :: "staffing_ref_row option"

definition merge_ref :: "forecast_row list \<Rightarrow> staffing_ref_row list \<Rightarrow> merged_row list" where
  "merge_ref forecast_df staffing_ref =
     map (\<lambda>f. \<lparr>forecast = f,
               ref = find (\<lambda>r. channel r = channel f \<and> queue r = queue f) staffing_ref\<rparr>)
       forecast_df"

text \<open>
  The columns set before the loops: the scaled demand, the shrinkage
  \<^verbatim>\<open>np.clip(shrinkage_rate.fillna(0.30) + delta, 0.0, 0.70)\<close> and the hourly cost
  \<^verbatim>\<open>cost_per_hour.fillna(22.0) * wage_multiplier\<close>.
\<close>

record scenario_row =
  merged :: merged_row
  scaled_offered :: real
  scenario_shrinkage :: real
  scenario_cost_per_hour :: real

definition prepare_row :: "Scenario \<Rightarrow> merged_row \<Rightarrow> scenario_row" where
  "prepare_row scenario m =
     \<lparr>merged = m,
      scaled_offered = forecast_offered (forecast m) * demand_multiplier scenario,
      scenario_shrinkage =
        min (70 / 100)
          (max 0 ((case ref m of Some r \<Rightarrow> shrinkage_rate r | None \<Rightarrow> 30 / 100)
                   + shrinkage_delta scenario)),
      scenario_cost_per_hour =
        (case ref m of Some r \<Rightarrow> cost_per_hour r | None \<Rightarrow> 22) * wage_multiplier scenario\<rparr>"

text \<open>
  What both loops read from a row. For a row without reference the columns are \<open>NaN\<close>:
  \<^verbatim>\<open>max(1.0, nan)\<close> is \<open>1.0\<close> and \<^verbatim>\<open>bool(nan)\<close> is \<open>True\<close>.
\<close>

definition row_offered :: "scenario_row \<Rightarrow> real" where
  "row_offered row = max 0 (scaled_offered row)"

definition row_aht :: "scenario_row \<Rightarrow> real" where
  "row_aht row = (case ref (merged row) of Some r \<Rightarrow> max 1 (aht_seconds r) | None \<Rightarrow> 1)"

definition row_thr :: "scenario_row \<Rightarrow> real" where
  "row_thr row =
     (case ref (merged row) of Some r \<Rightarrow> max 1 (sla_threshold_seconds r) | None \<Rightarrow> 1)"

definition row_is_rt :: "scenario_row \<Rightarrow> bool" where
  "row_is_rt row = (case ref (merged row) of Some r \<Rightarrow> is_realtime r | None \<Rightarrow> True)"

text \<open>
  The body of the first loop, for one row: the required scheduled agents, with the
  service level and the speed of answer that the second loop later replaces.
\<close>

definition required_pass ::
  "int \<Rightarrow> Scenario \<Rightarrow> scenario_row \<Rightarrow> py_error + (int \<times> real \<times> pyfloat)" where
  "required_pass interval_seconds scenario row =
     (let offered = row_offered row;
          aht = row_aht row;
          thr = row_thr row;
          shrinkage = max 0 (scenario_shrinkage row)
      in if row_is_rt row then
           (case call_required_agents_realtime
                   [(''contacts'', offered), (''aht_seconds'', aht),
                    (''interval_seconds'', real_of_int interval_seconds),
                    (''sla_threshold_seconds'', thr), (''sla_target'', 80 / 100),
                    (''shrinkage'', shrinkage), (''occupancy_cap'', 85 / 100)] of
              Inl e \<Rightarrow> Inl e
            | Inr req \<Rightarrow>
                (case call_erlang_c_summary
                        [(''contacts'', offered), (''aht_seconds'', aht),
                         (''interval_seconds'', real_of_int interval_seconds),
                         (''agents_available'', real_of_int (available_agents req)),
                         (''sla_threshold_seconds'', thr)] of
                   Inl e \<Rightarrow> Inl e
                 | Inr er \<Rightarrow> Inr (scheduled_agents req, service_level er, asa_seconds er)))
         else
           (case call_required_agents_throughput
                   [(''contacts'', offered), (''aht_seconds'', aht),
                    (''interval_seconds'', real_of_int interval_seconds),
                    (''shrinkage'', shrinkage), (''buffer'', staffing_buffer scenario)] of
              Inl e \<Rightarrow> Inl e
            | Inr req \<Rightarrow>
                (let capacity_contacts =
                       (real_of_int (available_agents req) * real_of_int interval_seconds) / aht;
                     sla = (if offered \<le> 0 then 1 else min 1 (capacity_contacts / offered))
                 in Inr (scheduled_agents req, sla, NaN))))"

text \<open>The body of the second loop, for one row and its planned available agents.\<close>

definition planned_pass :: "int \<Rightarrow> scenario_row \<Rightarrow> int \<Rightarrow> py_error + (real \<times> pyfloat)" where
  "planned_pass interval_seconds row avail =
     (let offered = row_offered row;
          aht = row_aht row;
          thr = row_thr row
      in if row_is_rt row then
           (case call_erlang_c_summary
                   [(''contacts'', offered), (''aht_seconds'', aht),
                    (''interval_seconds'', real_of_int interval_seconds),
                    (''agents_available'', real_of_int avail),
                    (''sla_threshold_seconds'', thr)] of
              Inl e \<Rightarrow> Inl e
            | Inr er \<Rightarrow> Inr (service_level er, asa_seconds er))
         else
           (let capacity_contacts = (real_of_int avail * real_of_int interval_seconds) / aht;
                sla = (if offered \<le> 0 then 1 else min 1 (capacity_contacts / offered))
            in Inr (sla, NaN)))"

text \<open>A loop that appends one result per row and stops at the first exception.\<close>

fun for_each :: "('a \<Rightarrow> py_error + 'b) \<Rightarrow> 'a list \<Rightarrow> py_error + 'b list" where
  "for_each f [] = Inr []"
| "for_each f (x # xs) =
     (case f x of
        Inl e \<Rightarrow> Inl e
      | Inr y \<Rightarrow> (case for_each f xs of Inl e \<Rightarrow> Inl e | Inr ys \<Rightarrow> Inr (y # ys)))"

record ScenarioOutcomeRecord =
  source :: scenario_row
  outcome_scenario_id :: string
  scenario_name :: string
  required_agents_scheduled :: int
  planned_agents_scheduled :: int
  planned_agents_available :: int
  planned_labor_cost :: real
  achieved_service_level :: real
  achieved_asa_seconds :: pyfloat
  under_over_staffed :: int

definition planned_scheduled :: "Scenario \<Rightarrow> int \<Rightarrow> int" where
  "planned_scheduled scenario required = \<lceil>real_of_int required * (1 + staffing_buffer scenario)\<rceil>"

definition planned_available :: "Scenario \<Rightarrow> scenario_row \<Rightarrow> int \<Rightarrow> int" where
  "planned_available scenario row required =
     \<lfloor>real_of_int (planned_scheduled scenario required) * (1 - scenario_shrinkage row)\<rfloor>"

definition simulate_scenario ::
  "forecast_row list \<Rightarrow> staffing_ref_row list \<Rightarrow> int \<Rightarrow> Scenario
     \<Rightarrow> py_error + ScenarioOutcomeRecord list" where
  "simulate_scenario forecast_df staffing_ref interval_minutes scenario =
     (let df = map (prepare_row scenario) (merge_ref forecast_df staffing_ref);
          interval_seconds = interval_minutes * 60;
          interval_hours = real_of_int interval_minutes / 60
      in case for_each (required_pass interval_seconds scenario) df of
           Inl e \<Rightarrow> Inl e
         | Inr required \<Rightarrow>
             (let req_agents = map fst required
              in case for_each
                        (\<lambda>(row, req). planned_pass interval_seconds row
                                         (planned_available scenario row req))
                        (zip df req_agents) of
                   Inl e \<Rightarrow> Inl e
                 | Inr achieved \<Rightarrow>
                     Inr (map (\<lambda>((row, req), (new_sla, new_asa)).
                                 \<lparr>source = row,
                                  outcome_scenario_id = scenario_id scenario,
                                  scenario_name = name scenario,
                                  required_agents_scheduled = req,
                                  planned_agents_scheduled = planned_scheduled scenario req,
                                  planned_agents_available =
                                    planned_available scenario row req,
                                  planned_labor_cost =
                                    real_of_int (planned_scheduled scenario req)
                                      * scenario_cost_per_hour row * interval_hours,
                                  achieved_service_level = new_sla,
                                  achieved_asa_seconds = new_asa,
                                  under_over_staffed =
                                    planned_scheduled scenario req - req\<rparr>)
                            (zip (zip df req_agents) achieved))))"

section \<open>Example inputs\<close>

definition email_forecast :: forecast_row where
  "email_forecast =
     \<lparr>channel = ''email'', queue = ''support_email'', interval_start = 0,
      forecast_offered = 50\<rparr>"

definition email_ref :: staffing_ref_row where
  "email_ref =
     \<lparr>channel = ''email'', queue = ''support_email'', cost_per_hour = 21,
      shrinkage_rate = 1 / 4, sla_threshold_seconds = 86400, aht_seconds = 720,
      is_realtime = False\<rparr>"

definition base_scenario :: Scenario where
  "base_scenario = hd DEFAULT_SCENARIOS"

definition gap_series :: "contact_row list" where
  "gap_series =
     [\<lparr>channel = ''voice'', queue = ''billing'', interval_start = 0, offered_contacts = 10\<rparr>,
      \<lparr>channel = ''voice'', queue = ''billing'', interval_start = 7 * 86400,
        offered_contacts = 20\<rparr>]"

definition three_day_window :: "contact_row list" where
  "three_day_window =
     [\<lparr>channel = ''voice'', queue = ''billing'', interval_start = 0, offered_contacts = 10\<rparr>,
      \<lparr>channel = ''voice'', queue = ''billing'', interval_start = 2 * 86400,
        offered_contacts = 20\<rparr>]"

definition weekend_model :: SeriesModel where
  "weekend_model =
     \<lparr>profile = [\<lparr>dow = 3, bucket = 0, profile_value = 5\<rparr>,
                 \<lparr>dow = 5, bucket = 0, profile_value = 4\<rparr>,
                 \<lparr>dow = 5, bucket = 1, profile_value = 6\<rparr>],
      trend_slope = 2, trend_intercept = 100, base_level = 1\<rparr>"

definition three_day_index :: "timestamp list" where
  "three_day_index = [0, 3600, 86400, 172800]"

section \<open>Edge cases of the queueing model\<close>

text \<open>
  C4. When the offered load meets or exceeds the agent count (\<open>a \<ge> n\<close>), with positive
  handle time and threshold, the queue is saturated: the probability of waiting is 1,
  the average speed of answer is \<open>+infinity\<close> and the service level is 0.
\<close>

theorem saturated_queue:
  assumes "real_of_int n \<le> a" and "0 < aht" and "0 < thr"
  shows "erlang_c_prob_wait a n = Inr 1
       \<and> erlang_c_asa_seconds a n aht = Inr PInf
       \<and> erlang_c_service_level a n aht thr = Inr 0"
proof -
  have pw: "erlang_c_prob_wait a n = Inr 1"
    using assms(1) by (simp add: erlang_c_prob_wait_def)
  have pos: "0 < a" if "0 < n"
    using that assms(1) by linarith
  have asa: "erlang_c_asa_seconds a n aht = Inr PInf"
  proof (cases "n \<le> 0")
    case True
    then show ?thesis using assms(2) by (simp add: erlang_c_asa_seconds_def)
  next
    case False
    with pos have "0 < a" by simp
    with False assms show ?thesis by (simp add: erlang_c_asa_seconds_def)
  qed
  have sl: "erlang_c_service_level a n aht thr = Inr 0"
  proof (cases "n \<le> 0")
    case True
    then show ?thesis using assms by (simp add: erlang_c_service_level_def)
  next
    case False
    with pos have "0 < a" by simp
    with False assms show ?thesis by (simp add: erlang_c_service_level_def)
  qed
  from pw asa sl show ?thesis by simp
qed

theorem saturated_queue_witness:
  "erlang_c_prob_wait 12 10 = Inr 1
 \<and> erlang_c_asa_seconds 12 10 300 = Inr PInf
 \<and> erlang_c_service_level 12 10 300 20 = Inr 0"
  using saturated_queue [of 10 12 300 20] by simp

text \<open>
  C5 as stated fails when both the load and the agent count are non-positive: the
  functions test the agent count first, so \<open>a = 0\<close> with \<open>n = 0\<close> is reported as
  unstaffed (\<open>+infinity\<close>, service level 0), not as idle.
\<close>

theorem idle_unstaffed_counterexample:
  "erlang_c_asa_seconds 0 0 300 = Inr PInf
 \<and> erlang_c_asa_seconds 0 0 300 \<noteq> Inr (Fin 0)
 \<and> erlang_c_service_level 0 0 300 20 = Inr 0
 \<and> erlang_c_service_level 0 0 300 20 \<noteq> Inr 1"
  by (simp add: erlang_c_asa_seconds_def erlang_c_service_level_def)

text \<open>
  C5, amended. With no agents (\<open>n \<le> 0\<close>), whatever the load, the probability of waiting
  is 1, the average speed of answer is \<open>+infinity\<close> and the service level is 0. With at
  least one agent, no load (\<open>a \<le> 0\<close>) and positive handle time and threshold, the
  probability of waiting is 1, the average speed of answer is 0 and the service level
  is 1.
\<close>

theorem edge_case_policy:
  "(n \<le> 0 \<longrightarrow>
      erlang_c_prob_wait a n = Inr 1
    \<and> erlang_c_asa_seconds a n aht = Inr PInf
    \<and> erlang_c_service_level a n aht thr = Inr 0)
 \<and> (a \<le> 0 \<and> 0 < n \<and> 0 < aht \<and> 0 < thr \<longrightarrow>
      erlang_c_prob_wait a n = Inr 1
    \<and> erlang_c_asa_seconds a n aht = Inr (Fin 0)
    \<and> erlang_c_service_level a n aht thr = Inr 1)"
  by (simp add: erlang_c_prob_wait_def erlang_c_asa_seconds_def erlang_c_service_level_def)

theorem edge_case_policy_witness:
  "erlang_c_prob_wait 8 0 = Inr 1
 \<and> erlang_c_asa_seconds 8 0 300 = Inr PInf
 \<and> erlang_c_service_level 8 0 300 20 = Inr 0
 \<and> erlang_c_prob_wait 0 10 = Inr 1
 \<and> erlang_c_asa_seconds 0 10 300 = Inr (Fin 0)
 \<and> erlang_c_service_level 0 10 300 20 = Inr 1"
  using edge_case_policy [of 0 8 300 20] edge_case_policy [of 10 0 300 20] by simp

section \<open>Overflow of the factorial\<close>

lemma fact_171_nat: "2 ^ 1024 \<le> (fact 171 :: nat)"
  by (simp add: fact_numeral)

lemma large_fact_overflows:
  assumes "171 \<le> n"
  shows "float_overflows (real (fact n))"
proof -
  have "(fact 171 :: nat) \<le> fact n"
    using assms by (rule fact_mono)
  with fact_171_nat have "(2 :: nat) ^ 1024 \<le> fact n"
    by (rule order_trans)
  then have "real ((2 :: nat) ^ 1024) \<le> real (fact n)"
    by (simp only: of_nat_le_iff)
  then have "(2 :: real) ^ 1024 \<le> real (fact n)"
    by simp
  then show ?thesis
    unfolding float_overflows_def by simp
qed

lemma float_pow_error: "float_pow a k = Inl e \<Longrightarrow> e = OverflowError"
  by (auto simp: float_pow_def split: if_splits)

lemma factorial_error: "factorial k = Inl e \<Longrightarrow> e = OverflowError"
  by (auto simp: factorial_def split: if_splits)

lemma series_loop_error: "series_loop a ks s = Inl e \<Longrightarrow> e = OverflowError"
  by (induction ks arbitrary: s)
     (auto split: sum.splits dest: float_pow_error factorial_error)

lemma erlang_c_prob_wait_error: "erlang_c_prob_wait a n = Inl e \<Longrightarrow> e = OverflowError"
  by (auto simp: erlang_c_prob_wait_def Let_def split: if_splits sum.splits
      dest: float_pow_error factorial_error series_loop_error)

text \<open>
  From 171 agents on, every call in the stable region \<open>0 < a < n\<close> raises: either a power
  overflows in the loop, or \<^verbatim>\<open>_factorial(n)\<close> does, since \<open>171! > 2^1024\<close>.
\<close>

lemma many_agents_overflow:
  assumes "171 \<le> n" and "0 < a" and "a < real_of_int n"
  shows "erlang_c_prob_wait a n = Inl OverflowError"
proof -
  have "171 \<le> nat n"
    using assms(1) by simp
  then have "factorial (nat n) = Inl OverflowError"
    using large_fact_overflows [of "nat n"] by (simp add: factorial_def)
  moreover have "\<exists>e. erlang_c_prob_wait a n = Inl e"
    using assms calculation
    by (auto simp: erlang_c_prob_wait_def Let_def split: sum.splits)
  ultimately show ?thesis
    using erlang_c_prob_wait_error by blast
qed

text \<open>
  C3 asks that \<^verbatim>\<open>erlang_c_prob_wait(a, n)\<close> evaluates without overflow for every
  \<open>1 \<le> n \<le> 500\<close> and \<open>0 < a < n\<close>. At \<open>a = 1\<close>, \<open>n = 171\<close>, inside that range, the call
  raises \<^verbatim>\<open>OverflowError\<close>.
\<close>

theorem prob_wait_overflows_at_171:
  "(1::int) \<le> 171 \<and> (171::int) \<le> 500 \<and> (0::real) < 1 \<and> (1::real) < real_of_int 171
   \<and> erlang_c_prob_wait 1 171 = Inl OverflowError"
  using many_agents_overflow [of 171 1] by simp

section \<open>Monotonicity of the service level\<close>

lemma float_pow_value: "float_pow a k = Inr p \<Longrightarrow> p = a ^ k"
  by (auto simp: float_pow_def split: if_splits)

lemma factorial_value: "factorial k = Inr f \<Longrightarrow> f = fact k"
  by (auto simp: factorial_def split: if_splits)

lemma series_loop_value:
  "series_loop a ks s = Inr r \<Longrightarrow> r = s + (\<Sum>k\<leftarrow>ks. a ^ k / fact k)"
proof (induction ks arbitrary: s)
  case Nil
  then show ?case by simp
next
  case (Cons k ks)
  from Cons.prems obtain p f where p: "float_pow a k = Inr p" and f: "factorial k = Inr f"
    and rest: "series_loop a ks (s + p / f) = Inr r"
    by (auto split: sum.splits)
  from Cons.IH [OF rest] float_pow_value [OF p] factorial_value [OF f]
  show ?case by simp
qed

lemma series_loop_upt:
  assumes "series_loop a [0..<n] 0 = Inr r"
  shows "r = erlang_sum a n"
proof -
  have "(\<Sum>k\<leftarrow>[0..<n]. a ^ k / fact k) = (\<Sum>k<n. a ^ k / fact k)"
    by (simp add: interv_sum_list_conv_sum_set_nat atLeast0LessThan)
  with series_loop_value [OF assms] show ?thesis
    by (simp add: erlang_sum_def)
qed

lemma erlang_sum_nonneg: "0 \<le> a \<Longrightarrow> 0 \<le> erlang_sum a n"
  unfolding erlang_sum_def by (intro sum_nonneg) simp

lemma erlang_sum_Suc: "erlang_sum a (Suc n) = erlang_sum a n + a ^ n / fact n"
  by (simp add: erlang_sum_def)

lemma erlang_numer_pos:
  assumes "0 < a" and "a < real n"
  shows "0 < erlang_numer a n"
proof -
  have "0 < real n" using assms by linarith
  moreover have "0 < real n - a" using assms by simp
  ultimately have "0 < real n / (real n - a)" by (rule divide_pos_pos)
  moreover have "0 < a ^ n / fact n" using assms by simp
  ultimately show ?thesis
    unfolding erlang_numer_def by (intro mult_pos_pos)
qed

lemma erlang_numer_Suc:
  assumes "0 < a" and "a < real n"
  shows "erlang_numer a (Suc n) = a ^ n / fact n * (a / (1 + real n - a))"
proof -
  have d: "1 + real n - a \<noteq> 0" and c: "1 + real n \<noteq> 0"
    using assms by linarith+
  have "erlang_numer a (Suc n)
      = a ^ Suc n / fact (Suc n) * ((1 + real n) / (1 + real n - a))"
    unfolding erlang_numer_def by simp
  also have "a ^ Suc n / fact (Suc n) = a ^ n / fact n * (a / (1 + real n))"
    by (simp add: algebra_simps)
  also have "a ^ n / fact n * (a / (1 + real n)) * ((1 + real n) / (1 + real n - a))
      = a ^ n / fact n * (a / (1 + real n) * ((1 + real n) / (1 + real n - a)))"
    by (simp only: mult.assoc)
  also have "a / (1 + real n) * ((1 + real n) / (1 + real n - a)) = a / (1 + real n - a)"
    using c d by simp
  finally show ?thesis .
qed

lemma erlang_numer_mono:
  assumes "0 < a" and "a < real n"
  shows "erlang_numer a (Suc n) \<le> erlang_numer a n"
proof -
  have d1: "0 < real n - a" and d2: "0 < 1 + real n - a"
    using assms by linarith+
  have "a * (real n - a) \<le> real n * (1 + real n - a)"
    using assms d1 d2 by (intro mult_mono) linarith+
  then have "a / (1 + real n - a) \<le> real n / (real n - a)"
    using d1 d2 by (simp add: field_simps)
  moreover have "0 \<le> a ^ n / fact n"
    using assms by simp
  ultimately have "a ^ n / fact n * (a / (1 + real n - a))
      \<le> a ^ n / fact n * (real n / (real n - a))"
    by (rule mult_left_mono)
  then show ?thesis
    by (simp only: erlang_numer_Suc [OF assms] erlang_numer_def [of a n])
qed

lemma ratio_mono:
  fixes x x' s s' :: real
  assumes "0 < x'" and "x' \<le> x" and "0 \<le> s" and "s \<le> s'"
  shows "x' / (s' + x') \<le> x / (s + x)"
proof -
  have "x' * s \<le> x * s'"
    using assms by (intro mult_mono) linarith+
  then have "x' * (s + x) \<le> x * (s' + x')"
    by (simp add: algebra_simps)
  moreover have "0 < s' + x'" and "0 < s + x"
    using assms by linarith+
  ultimately show ?thesis
    by (simp add: field_simps)
qed

lemma erlang_c_Suc:
  assumes "0 < a" and "a < real n"
  shows "erlang_c a (Suc n) \<le> erlang_c a n"
proof -
  have a': "a < real (Suc n)" using assms by simp
  have "0 \<le> a ^ n / fact n" using assms by simp
  then have "erlang_sum a n \<le> erlang_sum a (Suc n)"
    by (simp add: erlang_sum_Suc)
  with erlang_numer_pos [OF assms(1) a'] erlang_numer_mono [OF assms]
    erlang_sum_nonneg [of a n] assms(1)
  show ?thesis
    unfolding erlang_c_def by (intro ratio_mono) simp_all
qed

lemma erlang_c_antimono:
  assumes "0 < a" and "a < real n" and "n \<le> m"
  shows "erlang_c a m \<le> erlang_c a n"
  using assms(3)
proof (induction m rule: dec_induct)
  case base
  show ?case by simp
next
  case (step k)
  have "a < real k" using assms(2) step.hyps(1) by simp
  from erlang_c_Suc [OF assms(1) this] step.IH show ?case by simp
qed

lemma erlang_c_nonneg:
  assumes "0 < a" and "a < real n"
  shows "0 \<le> erlang_c a n"
  using erlang_numer_pos [OF assms] erlang_sum_nonneg [of a n] assms(1)
  unfolding erlang_c_def by simp

lemma prob_wait_value:
  assumes "0 < a" and "a < real_of_int n" and "erlang_c_prob_wait a n = Inr pw"
  shows "pw = max 0 (min 1 (erlang_c a (nat n)))"
proof -
  have n: "0 < n" using assms(1,2) by linarith
  then have rn: "real (nat n) = real_of_int n" by simp
  from assms n obtain s p f where s: "series_loop a [0..<nat n] 0 = Inr s"
    and p: "float_pow a (nat n) = Inr p" and f: "factorial (nat n) = Inr f"
    and pw: "pw = (let numer = p / f * (real (nat n) / (real (nat n) - a)); denom = s + numer
                   in if denom \<le> 0 then 1 else max 0 (min 1 (numer / denom)))"
    by (auto simp: erlang_c_prob_wait_def Let_def split: sum.splits if_splits)
  have numer: "p / f * (real (nat n) / (real (nat n) - a)) = erlang_numer a (nat n)"
    using float_pow_value [OF p] factorial_value [OF f] by (simp add: erlang_numer_def)
  have sum: "s = erlang_sum a (nat n)"
    using series_loop_upt [OF s] .
  have "0 < erlang_numer a (nat n)"
    using erlang_numer_pos [of a "nat n"] assms(1,2) rn by simp
  moreover have "0 \<le> erlang_sum a (nat n)"
    using erlang_sum_nonneg [of a "nat n"] assms(1) by simp
  ultimately have "\<not> erlang_sum a (nat n) + erlang_numer a (nat n) \<le> 0"
    by linarith
  then show ?thesis
    unfolding pw numer sum by (simp add: Let_def erlang_c_def)
qed

lemma service_level_range:
  "erlang_c_service_level a n aht thr = Inr x \<Longrightarrow> 0 \<le> x \<and> x \<le> 1"
  by (auto simp: erlang_c_service_level_def Let_def split: if_splits sum.splits)

lemma service_level_value:
  assumes "0 < a" and "a < real_of_int n" and "0 < aht" and "0 < thr"
    and "erlang_c_service_level a n aht thr = Inr x"
  shows "x = max 0 (min 1 (1 - max 0 (min 1 (erlang_c a (nat n)))
                               * exp (- (real_of_int n - a) * (thr / aht))))"
proof -
  have n: "0 < n" using assms(1,2) by linarith
  from assms n obtain pw where pw: "erlang_c_prob_wait a n = Inr pw"
    and x: "x = max 0 (min 1 (1 - pw * exp (- (real_of_int n - a) * (thr / aht))))"
    by (auto simp: erlang_c_service_level_def Let_def split: sum.splits if_splits)
  from prob_wait_value [OF assms(1,2) pw] x show ?thesis by simp
qed

text \<open>
  Where the function returns, the service level is non-decreasing in the agent count,
  for fixed load \<open>a > 0\<close>, handle time \<open>aht > 0\<close> and threshold \<open>thr > 0\<close>.
\<close>

lemma service_level_mono_where_returns:
  assumes "0 < a" and "0 < aht" and "0 < thr" and "n \<le> m"
    and "erlang_c_service_level a n aht thr = Inr x"
    and "erlang_c_service_level a m aht thr = Inr y"
  shows "x \<le> y"
proof (cases "a < real_of_int n")
  case False
  then have "x = 0"
    using assms(1,2,3,5) by (auto simp: erlang_c_service_level_def split: if_splits)
  with service_level_range [OF assms(6)] show ?thesis by simp
next
  case True
  then have am: "a < real_of_int m" using assms(4) by linarith
  have n: "0 < n" using True assms(1) by linarith
  define cn where "cn = max 0 (min 1 (erlang_c a (nat n)))"
  define cm where "cm = max 0 (min 1 (erlang_c a (nat m)))"
  define en where "en = exp (- (real_of_int n - a) * (thr / aht))"
  define em where "em = exp (- (real_of_int m - a) * (thr / aht))"
  have x: "x = max 0 (min 1 (1 - cn * en))"
    using service_level_value [OF assms(1) True assms(2,3,5)] by (simp add: cn_def en_def)
  have y: "y = max 0 (min 1 (1 - cm * em))"
    using service_level_value [OF assms(1) am assms(2,3,6)] by (simp add: cm_def em_def)
  have "a < real (nat n)" using True n by simp
  moreover have "nat n \<le> nat m" using assms(4) by simp
  ultimately have "erlang_c a (nat m) \<le> erlang_c a (nat n)"
    using erlang_c_antimono [OF assms(1)] by blast
  then have c: "cm \<le> cn" and c0: "0 \<le> cm"
    by (simp_all add: cn_def cm_def)
  have "0 < thr / aht" using assms(2,3) by simp
  then have "(real_of_int n - a) * (thr / aht) \<le> (real_of_int m - a) * (thr / aht)"
    using assms(4) by (intro mult_right_mono) simp_all
  then have "- (real_of_int m - a) * (thr / aht) \<le> - (real_of_int n - a) * (thr / aht)"
    by (simp only: mult_minus_left neg_le_iff_le)
  then have e: "em \<le> en"
    unfolding en_def em_def by (simp only: exp_le_cancel_iff)
  have e0: "0 \<le> em"
    by (simp add: em_def)
  have "cm * em \<le> cn * en"
    using c c0 e e0 by (intro mult_mono) simp_all
  then show ?thesis
    unfolding x y by simp
qed

lemma sl_1_2: "erlang_c_service_level 1 2 1 1 = Inr (1 - exp (- 1) / 3)"
proof -
  have "[0..<2] = [0, Suc 0]" by (simp add: upt_rec)
  moreover have "nat 2 = 2" by simp
  moreover have "(0::real) \<le> 1 - exp (- 1) / 3"
  proof -
    have "exp (- 1 :: real) \<le> 1" by simp
    then show ?thesis by linarith
  qed
  ultimately show ?thesis
    by (simp add: erlang_c_service_level_def erlang_c_prob_wait_def float_pow_def
        factorial_def float_overflows_def Let_def fact_numeral)
qed

lemma sl_1_3: "erlang_c_service_level 1 3 1 1 = Inr (1 - exp (- 2) / 11)"
proof -
  have "[0..<3] = [0, Suc 0, 2]" by (simp add: upt_rec)
  moreover have "nat 3 = 3" by simp
  moreover have "(0::real) \<le> 1 - exp (- 2) / 11"
  proof -
    have "exp (- 2 :: real) \<le> 1" by simp
    then show ?thesis by linarith
  qed
  ultimately show ?thesis
    by (simp add: erlang_c_service_level_def erlang_c_prob_wait_def float_pow_def
        factorial_def float_overflows_def Let_def fact_numeral)
qed

lemma service_level_mono_example:
  "erlang_c_service_level 1 2 1 1 = Inr (1 - exp (- 1) / 3)
 \<and> erlang_c_service_level 1 3 1 1 = Inr (1 - exp (- 2) / 11)
 \<and> (1 - exp (- 1) / 3 :: real) \<le> 1 - exp (- 2) / 11"
  using service_level_mono_where_returns [of 1 1 1 2 3, OF _ _ _ _ sl_1_2 sl_1_3] sl_1_2 sl_1_3
  by simp

lemma service_level_overflow:
  assumes "171 \<le> n" and "0 < a" and "a < real_of_int n" and "0 < aht" and "0 < thr"
  shows "erlang_c_service_level a n aht thr = Inl OverflowError"
proof -
  have "erlang_c_prob_wait a n = Inl OverflowError"
    using assms(1,2,3) by (rule many_agents_overflow)
  then show ?thesis
    using assms by (simp add: erlang_c_service_level_def)
qed

text \<open>
  C7 asks that \<^verbatim>\<open>erlang_c_service_level(a, n, aht, threshold)\<close> is non-decreasing in
  every integer agent count \<open>n\<close>. At \<open>a = 1\<close>, \<open>aht = 1\<close>, \<open>threshold = 1\<close> the call returns
  a service level for \<open>n = 2\<close> and raises \<^verbatim>\<open>OverflowError\<close> for \<open>n = 171\<close> and for
  \<open>n = 250\<close>, the midpoint of a binary search over \<open>1..500\<close>: from 171 agents on there
  is no service level to compare.
\<close>

theorem service_level_raises_from_171:
  "erlang_c_service_level 1 2 1 1 = Inr (1 - exp (- 1) / 3)
 \<and> erlang_c_service_level 1 171 1 1 = Inl OverflowError
 \<and> erlang_c_service_level 1 250 1 1 = Inl OverflowError"
  using sl_1_2 service_level_overflow [of 171 1 1 1] service_level_overflow [of 250 1 1 1]
  by simp

section \<open>Evaluating the rounding\<close>

text \<open>
  Within a known binade the rounding is a rounding of integers: for \<open>2^k \<le> |x| < 2^(k+1)\<close>
  to multiples of \<open>2^k / 2^52\<close>, for \<open>2^(-k) \<le> |x| < 2^(1-k)\<close> to multiples of
  \<open>2^(-(52+k))\<close>.
\<close>

lemma binade_eq:
  assumes "2 powr real_of_int e \<le> \<bar>x\<bar>" and "\<bar>x\<bar> < 2 powr (real_of_int e + 1)"
  shows "\<lfloor>log 2 \<bar>x\<bar>\<rfloor> = e"
proof -
  have pos: "0 < \<bar>x\<bar>"
    using assms(1) powr_gt_zero [of 2 "real_of_int e"] by linarith
  have "real_of_int e \<le> log 2 \<bar>x\<bar>"
    using assms(1) pos by (simp add: le_log_iff)
  moreover have "log 2 \<bar>x\<bar> < real_of_int e + 1"
    using assms(2) pos by (simp add: log_less_iff)
  ultimately show ?thesis
    by (simp add: floor_eq_iff)
qed

lemma round_double_large:
  assumes "2 ^ k \<le> \<bar>x\<bar>" and "\<bar>x\<bar> < 2 * 2 ^ k"
  shows "round_double x = of_int (round_half_even (x * 2 ^ 52 / 2 ^ k)) * 2 ^ k / 2 ^ 52"
proof -
  have pk: "2 powr real k = (2::real) ^ k"
    by (simp add: powr_realpow)
  have "2 powr (real_of_int (int k) + 1) = (2::real) * 2 ^ k"
    by (simp add: powr_add pk)
  with assms pk have "\<lfloor>log 2 \<bar>x\<bar>\<rfloor> = int k"
    by (intro binade_eq) simp_all
  then have e: "max \<lfloor>log 2 \<bar>x\<bar>\<rfloor> (- 1022) = int k"
    by simp
  have "(0::real) < 2 ^ k"
    by simp
  with assms(1) have "0 < \<bar>x\<bar>"
    by linarith
  then have x: "x \<noteq> 0"
    by simp
  have "2 powr (real k - 52) = 2 powr real k / 2 powr 52"
    by (rule powr_diff)
  then have u: "2 powr (real k - 52) = (2::real) ^ k / 2 ^ 52"
    by (simp add: pk)
  have "round_double x
      = of_int (round_half_even (x / 2 powr (real k - 52))) * 2 powr (real k - 52)"
    using x by (simp add: round_double_def e Let_def)
  also have "\<dots> = of_int (round_half_even (x / (2 ^ k / 2 ^ 52))) * (2 ^ k / 2 ^ 52)"
    by (simp only: u)
  also have "x / (2 ^ k / 2 ^ 52) = x * 2 ^ 52 / 2 ^ k"
    by simp
  finally show ?thesis
    by simp
qed

lemma round_double_small:
  assumes "1 / 2 ^ k \<le> \<bar>x\<bar>" and "\<bar>x\<bar> < 2 / 2 ^ k" and "k \<le> 1022"
  shows "round_double x = of_int (round_half_even (x * 2 ^ (52 + k))) / 2 ^ (52 + k)"
proof -
  have pk: "2 powr real k = (2::real) ^ k"
    by (simp add: powr_realpow)
  have "2 powr real_of_int (- int k) = 2 powr (- real k)"
    by simp
  also have "\<dots> = 1 / 2 powr real k"
    by (simp add: powr_minus divide_inverse)
  finally have p: "2 powr real_of_int (- int k) = 1 / (2::real) ^ k"
    by (simp only: pk)
  have "2 powr (real_of_int (- int k) + 1) = 2 powr (1 - real k)"
    by simp
  also have "\<dots> = 2 powr 1 / 2 powr real k"
    by (rule powr_diff)
  finally have q: "2 powr (real_of_int (- int k) + 1) = 2 / (2::real) ^ k"
    by (simp add: pk)
  from assms(1,2) p q have "\<lfloor>log 2 \<bar>x\<bar>\<rfloor> = - int k"
    by (intro binade_eq) simp_all
  then have e: "max \<lfloor>log 2 \<bar>x\<bar>\<rfloor> (- 1022) = - int k"
    using assms(3) by simp
  have "(0::real) < 1 / 2 ^ k"
    by simp
  with assms(1) have "0 < \<bar>x\<bar>"
    by linarith
  then have x: "x \<noteq> 0"
    by simp
  have "- real k - 52 = - real (52 + k)"
    by simp
  then have "2 powr (- real k - 52) = 2 powr (- real (52 + k))"
    by (simp only:)
  also have "\<dots> = 1 / 2 powr real (52 + k)"
    by (simp only: powr_minus divide_inverse mult_1)
  also have "2 powr real (52 + k) = (2::real) ^ (52 + k)"
    by (simp only: powr_realpow [of 2 "52 + k"] zero_less_numeral)
  finally have u: "2 powr (- real k - 52) = 1 / (2::real) ^ (52 + k)" .
  have "round_double x
      = of_int (round_half_even (x / 2 powr (- real k - 52))) * 2 powr (- real k - 52)"
    using x by (simp add: round_double_def e Let_def)
  also have "\<dots> = of_int (round_half_even (x / (1 / 2 ^ (52 + k)))) * (1 / 2 ^ (52 + k))"
    by (simp only: u)
  also have "x / (1 / 2 ^ (52 + k)) = x * 2 ^ (52 + k)"
    by simp
  finally show ?thesis
    by simp
qed

lemma double_0: "round_double 0 = 0"
  by (simp add: round_double_def)

lemma double_1: "round_double 1 = 1"
  by (subst round_double_large [where k = 0]) (simp_all add: round_half_even_def)

lemma double_0_1: "round_double (1 / 10) = dbl_0_1"
  unfolding dbl_0_1_def
  by (subst round_double_small [where k = 4]) (simp_all add: round_half_even_def)

lemma double_0_95: "round_double (19 / 20) = dbl_0_95"
  unfolding dbl_0_95_def
  by (subst round_double_small [where k = 1]) (simp_all add: round_half_even_def)

lemma double_0_32: "round_double (8 / 25) = dbl_0_32"
  unfolding dbl_0_32_def
  by (subst round_double_small [where k = 2]) (simp_all add: round_half_even_def)

lemma double_1e_9: "round_double (1 / 1000000000) = dbl_1e_9"
  unfolding dbl_1e_9_def
  by (subst round_double_small [where k = 30]) (simp_all add: round_half_even_def)

lemma double_0_75: "round_double (3 / 4) = 3 / 4"
  by (subst round_double_small [where k = 1]) (simp_all add: round_half_even_def)

lemma double_40: "round_double 40 = 40"
  by (subst round_double_large [where k = 5]) (simp_all add: round_half_even_def)

lemma double_51: "round_double 51 = 51"
  by (subst round_double_large [where k = 5]) (simp_all add: round_half_even_def)

lemma double_900: "round_double 900 = 900"
  by (subst round_double_large [where k = 9]) (simp_all add: round_half_even_def)

lemma double_36000: "round_double 36000 = 36000"
  by (subst round_double_large [where k = 15]) (simp_all add: round_half_even_def)

lemma double_45900: "round_double 45900 = 45900"
  by (subst round_double_large [where k = 15]) (simp_all add: round_half_even_def)

lemma double_one_minus: "round_double (1 - dbl_0_32) = dbl_0_68"
  unfolding dbl_0_32_def dbl_0_68_def
  by (subst round_double_small [where k = 1]) (simp_all add: round_half_even_def)

lemma double_quotient: "round_double (51 / dbl_0_68) = 75"
  unfolding dbl_0_68_def
  by (subst round_double_large [where k = 6]) (simp_all add: round_half_even_def)

lemma double_product: "round_double (75 * dbl_0_68) = dbl_50_99"
  unfolding dbl_0_68_def dbl_50_99_def
  by (subst round_double_large [where k = 5]) (simp_all add: round_half_even_def)

lemma double_53_33: "round_double (160 / 3) = dbl_53_33"
  unfolding dbl_53_33_def
  by (subst round_double_large [where k = 5]) (simp_all add: round_half_even_def)

lemma double_0_3: "round_double (3 / 10) = dbl_0_3"
  unfolding dbl_0_3_def
  by (subst round_double_small [where k = 2]) (simp_all add: round_half_even_def)

lemma double_0_7: "round_double (1 - dbl_0_3) = dbl_0_7"
  unfolding dbl_0_3_def dbl_0_7_def
  by (subst round_double_small [where k = 1]) (simp_all add: round_half_even_def)

lemma double_30_0: "round_double (21 / dbl_0_7) = dbl_30_0"
  unfolding dbl_0_7_def dbl_30_0_def
  by (subst round_double_large [where k = 4]) (simp_all add: round_half_even_def)

lemma double_21: "round_double 21 = 21"
  by (subst round_double_large [where k = 4]) (simp_all add: round_half_even_def)

lemma double_18900: "round_double 18900 = 18900"
  by (subst round_double_large [where k = 14]) (simp_all add: round_half_even_def)

lemma double_2_53: "round_double 9007199254740992 = 9007199254740992"
  by (subst round_double_large [where k = 53]) (simp_all add: round_half_even_def)

lemma double_2_53_1: "round_double 9007199254740993 = 9007199254740992"
  by (subst round_double_large [where k = 53]) (simp_all add: round_half_even_def)

lemma double_order:
  "max dbl_0_1 1 = 1" "max 0 (min dbl_0_95 dbl_0_32) = dbl_0_32"
  "max dbl_1e_9 dbl_0_68 = dbl_0_68" "max 0 (min dbl_0_95 (1 / 4)) = 1 / 4"
  "max dbl_1e_9 (3 / 4) = 3 / 4" "max 0 (min dbl_0_95 dbl_0_3) = dbl_0_3"
  "max dbl_1e_9 dbl_0_7 = dbl_0_7" "max 0 (min dbl_0_95 0) = 0" "max dbl_1e_9 1 = 1"
  by (simp_all add: dbl_0_1_def dbl_0_95_def dbl_0_32_def dbl_1e_9_def dbl_0_68_def
      dbl_0_3_def dbl_0_7_def)

lemma double_floor_ceiling:
  "\<lfloor>dbl_50_99\<rfloor> = 50" "\<lceil>dbl_53_33\<rceil> = 54" "\<lceil>dbl_30_0\<rceil> = 31"
  by (simp_all add: dbl_50_99_def dbl_53_33_def dbl_30_0_def ceiling_eq_iff)

lemma double_in_range:
  "\<not> float_overflows 0" "\<not> float_overflows 1" "\<not> float_overflows 40"
  "\<not> float_overflows 51" "\<not> float_overflows 900" "\<not> float_overflows 3600"
  "\<not> float_overflows 36000" "\<not> float_overflows 45900"
  "\<not> float_overflows (160 / 3)" "\<not> float_overflows (51 / dbl_0_68)"
  "\<not> float_overflows 21" "\<not> float_overflows 18900" "\<not> float_overflows (21 / dbl_0_7)"
  "\<not> float_overflows 9007199254740992" "\<not> float_overflows 9007199254740993"
  by (simp_all add: float_overflows_def dbl_0_68_def dbl_0_7_def)

lemmas double_values =
  double_0 double_1 double_0_1 double_0_95 double_0_32 double_1e_9 double_0_75 double_40
  double_51 double_900 double_36000 double_45900 double_one_minus double_quotient double_product
  double_53_33 double_0_3 double_0_7 double_30_0 double_21 double_18900 double_2_53
  double_2_53_1 double_order double_floor_ceiling double_in_range

section \<open>The search for the smallest agent count\<close>

lemma service_level_error:
  "erlang_c_service_level a n aht thr = Inl e \<Longrightarrow> e = OverflowError"
  by (auto simp: erlang_c_service_level_def Let_def split: if_splits sum.splits
      dest: erlang_c_prob_wait_error)

lemma sla_search_error:
  "sla_search traffic aht thr target mx ns = Inl e \<Longrightarrow> e = OverflowError"
  by (induction ns) (auto split: sum.splits if_splits dest: service_level_error)

lemma sla_search_upto:
  "sla_search traffic aht thr target mx [i..j] = Inr n \<Longrightarrow>
     (i \<le> n \<and> n \<le> j
      \<and> (\<exists>x. erlang_c_service_level traffic n aht thr = Inr x \<and> target \<le> x)
      \<and> (\<forall>k. i \<le> k \<and> k < n \<longrightarrow>
             (\<exists>y. erlang_c_service_level traffic k aht thr = Inr y \<and> y < target)))
   \<or> (n = mx
      \<and> (\<forall>k. i \<le> k \<and> k \<le> j \<longrightarrow>
             (\<exists>y. erlang_c_service_level traffic k aht thr = Inr y \<and> y < target)))"
proof (induction i j rule: upto.induct)
  case (1 i j)
  show ?case
  proof (cases "i \<le> j")
    case False
    then have "[i..j] = []" by simp
    with "1.prems" have "n = mx" by simp
    with False show ?thesis by auto
  next
    case True
    then have unfold: "[i..j] = i # [i + 1..j]" by (simp add: upto_rec1)
    from "1.prems" unfold obtain sl where sl: "erlang_c_service_level traffic i aht thr = Inr sl"
      by (auto split: sum.splits)
    show ?thesis
    proof (cases "target \<le> sl")
      case hit: True
      with "1.prems" unfold sl have "n = i" by simp
      with hit sl True show ?thesis by auto
    next
      case miss: False
      with "1.prems" unfold sl
      have rest: "sla_search traffic aht thr target mx [i + 1..j] = Inr n" by simp
      have step: "k = i \<or> i + 1 \<le> k" if "i \<le> k" for k :: int
        using that by linarith
      from "1.IH" [OF True rest] show ?thesis
      proof
        assume found: "i + 1 \<le> n \<and> n \<le> j
          \<and> (\<exists>x. erlang_c_service_level traffic n aht thr = Inr x \<and> target \<le> x)
          \<and> (\<forall>k. i + 1 \<le> k \<and> k < n \<longrightarrow>
                (\<exists>y. erlang_c_service_level traffic k aht thr = Inr y \<and> y < target))"
        have "\<exists>y. erlang_c_service_level traffic k aht thr = Inr y \<and> y < target"
          if "i \<le> k" and "k < n" for k
          using step [OF that(1)] that(2) found sl miss by auto
        with found show ?thesis by auto
      next
        assume none: "n = mx
          \<and> (\<forall>k. i + 1 \<le> k \<and> k \<le> j \<longrightarrow>
                (\<exists>y. erlang_c_service_level traffic k aht thr = Inr y \<and> y < target))"
        have "\<exists>y. erlang_c_service_level traffic k aht thr = Inr y \<and> y < target"
          if "i \<le> k" and "k \<le> j" for k
          using step [OF that(1)] that(2) none sl miss by auto
        with none show ?thesis by auto
      qed
    qed
  qed
qed

lemma service_level_unstaffed: "n \<le> 0 \<Longrightarrow> erlang_c_service_level a n aht thr = Inr 0"
  by (simp add: erlang_c_service_level_def)

text \<open>
  C6, amended. Whenever \<^verbatim>\<open>required_agents_for_sla\<close> returns, with \<open>traffic\<close> the double
  that the code computes for \<open>contacts * aht / max(1, interval)\<close> and
  \<open>start = max(1, ceil(traffic))\<close>, the
  result \<open>n\<close> is either the smallest agent count in \<open>start..max_agents\<close> whose service level
  reaches the target (every smaller count of the range returns a service level below
  it), or it is \<open>max_agents\<close> and no count in \<open>start..max_agents\<close> reaches the target. For a
  positive target the same holds for the range that starts at \<open>ceil(traffic)\<close>. So the
  result has a service level of at least the target, or it is \<open>max_agents\<close>.
\<close>

theorem required_agents_for_sla_least:
  assumes "required_agents_for_sla contacts interval_seconds aht thr target max_agents = Inr n"
    and "traffic = round_double (round_double (contacts * aht)
                        / round_double (real_of_int (max 1 interval_seconds)))"
    and "start = max 1 \<lceil>traffic\<rceil>"
  shows "(start \<le> n \<and> n \<le> max_agents
          \<and> (\<exists>x. erlang_c_service_level traffic n aht thr = Inr x \<and> target \<le> x)
          \<and> (\<forall>k. start \<le> k \<and> k < n \<longrightarrow>
                 (\<exists>y. erlang_c_service_level traffic k aht thr = Inr y \<and> y < target))
          \<and> (0 < target \<longrightarrow>
               (\<forall>k. \<lceil>traffic\<rceil> \<le> k \<and> k < n \<longrightarrow>
                 (\<exists>y. erlang_c_service_level traffic k aht thr = Inr y \<and> y < target))))
       \<or> (n = max_agents
          \<and> (\<forall>k. start \<le> k \<and> k \<le> max_agents \<longrightarrow>
                 (\<exists>y. erlang_c_service_level traffic k aht thr = Inr y \<and> y < target))
          \<and> (0 < target \<longrightarrow>
               (\<forall>k. \<lceil>traffic\<rceil> \<le> k \<and> k \<le> max_agents \<longrightarrow>
                 (\<exists>y. erlang_c_service_level traffic k aht thr = Inr y \<and> y < target))))"
proof -
  have run: "sla_search traffic aht thr target max_agents [start..max_agents] = Inr n"
    using assms by (simp add: required_agents_for_sla_def Let_def split: if_splits)
  have low: "\<exists>y. erlang_c_service_level traffic k aht thr = Inr y \<and> y < target"
    if "0 < target" and "k < start" and "\<lceil>traffic\<rceil> \<le> k" for k
  proof -
    have "k \<le> 0" using that(2,3) assms(3) by linarith
    then show ?thesis using service_level_unstaffed that(1) by simp
  qed
  from sla_search_upto [OF run] show ?thesis
  proof
    assume found: "start \<le> n \<and> n \<le> max_agents
      \<and> (\<exists>x. erlang_c_service_level traffic n aht thr = Inr x \<and> target \<le> x)
      \<and> (\<forall>k. start \<le> k \<and> k < n \<longrightarrow>
             (\<exists>y. erlang_c_service_level traffic k aht thr = Inr y \<and> y < target))"
    have "\<exists>y. erlang_c_service_level traffic k aht thr = Inr y \<and> y < target"
      if "0 < target" and "\<lceil>traffic\<rceil> \<le> k" and "k < n" for k
    proof (cases "k < start")
      case True
      then show ?thesis using low that by blast
    next
      case False
      then show ?thesis using found that by auto
    qed
    with found show ?thesis by blast
  next
    assume none: "n = max_agents
      \<and> (\<forall>k. start \<le> k \<and> k \<le> max_agents \<longrightarrow>
             (\<exists>y. erlang_c_service_level traffic k aht thr = Inr y \<and> y < target))"
    have "\<exists>y. erlang_c_service_level traffic k aht thr = Inr y \<and> y < target"
      if "0 < target" and "\<lceil>traffic\<rceil> \<le> k" and "k \<le> max_agents" for k
    proof (cases "k < start")
      case True
      then show ?thesis using low that by blast
    next
      case False
      then show ?thesis using none that by auto
    qed
    with none show ?thesis by blast
  qed
qed

lemma sla_search_first:
  assumes "start \<le> mx" and "erlang_c_service_level traffic start aht thr = Inr x"
    and "target \<le> x"
  shows "sla_search traffic aht thr target mx [start..mx] = Inr start"
proof -
  have "[start..mx] = start # [start + 1..mx]"
    using assms(1) by (simp add: upto_rec1)
  with assms(2,3) show ?thesis by simp
qed

lemma no_contacts_one_agent:
  assumes "0 < aht" and "0 < thr" and "target \<le> 1" and "1 \<le> mx"
    and "\<not> float_overflows (real_of_int (max 1 interval_seconds))"
  shows "required_agents_for_sla 0 interval_seconds aht thr target mx = Inr 1"
proof -
  have "erlang_c_service_level 0 1 aht thr = Inr 1"
    using assms(1,2) by (simp add: erlang_c_service_level_def)
  from sla_search_first [OF assms(4) this assms(3)] show ?thesis
    using assms(5) by (simp add: required_agents_for_sla_def double_0 double_in_range)
qed

text \<open>
  C6 as stated fails for a target that no service level can miss: with no contacts and
  target 0, the traffic is 0 and the range \<open>ceil(traffic)..500\<close> starts at 0, where the
  service level 0 already meets the target, and the search, which starts at 1, returns 1.
\<close>

theorem required_agents_for_sla_counterexample:
  "required_agents_for_sla 0 3600 300 20 0 500 = Inr 1
 \<and> \<lceil>round_double (round_double (0 * 300) / round_double (real_of_int (max 1 3600)))\<rceil>
     = (0::int)
 \<and> (0::int) \<le> 500
 \<and> erlang_c_service_level
       (round_double (round_double (0 * 300) / round_double (real_of_int (max 1 3600))))
       0 300 20 = Inr 0
 \<and> (0::real) \<le> 0
 \<and> (0::int) < 1"
  using no_contacts_one_agent [of 300 20 0 500 3600]
  by (simp add: erlang_c_service_level_def double_0 double_in_range)

lemma exp_minus_one_le_half: "exp (- 1 :: real) \<le> 1 / 2"
proof -
  have "(2 :: real) \<le> exp 1"
    using exp_ge_add_one_self [of "1 :: real"] by simp
  then have "inverse (exp (1 :: real)) \<le> inverse 2"
    by (intro le_imp_inverse_le) simp_all
  moreover have "exp (- 1 :: real) = inverse (exp 1)"
    by (rule exp_minus)
  ultimately show ?thesis
    by (simp only: inverse_eq_divide)
qed

lemma solver_one_erlang: "required_agents_for_sla 1 1 1 1 (8 / 10) 500 = Inr 2"
proof -
  have l: "[1..500 :: int] = 1 # 2 # [3..500]"
    by (simp add: upto_rec1)
  have s1: "erlang_c_service_level 1 1 1 1 = Inr 0"
    by (simp add: erlang_c_service_level_def)
  have "(8 / 10 :: real) \<le> 1 - exp (- 1) / 3"
    using exp_minus_one_le_half by linarith
  with l s1 sl_1_2 show ?thesis
    by (simp add: required_agents_for_sla_def double_1 double_in_range)
qed

theorem required_agents_for_sla_least_witness:
  "required_agents_for_sla 1 1 1 1 (8 / 10) 500 = Inr 2
 \<and> (\<exists>x. erlang_c_service_level 1 2 1 1 = Inr x \<and> 8 / 10 \<le> x)
 \<and> (\<exists>y. erlang_c_service_level 1 1 1 1 = Inr y \<and> y < 8 / 10)"
proof -
  have "erlang_c_service_level 1 1 1 1 = Inr 0"
    by (simp add: erlang_c_service_level_def)
  then have "\<not> (\<exists>y. erlang_c_service_level 1 500 1 1 = Inr y \<and> y < 8 / 10)
      \<or> (2 :: int) \<noteq> 500"
    by simp
  with required_agents_for_sla_least [OF solver_one_erlang, of 1 1] solver_one_erlang
  show ?thesis
    by (auto simp: double_1)
qed

text \<open>
  The overflow of the factorial reaches the solver: for a load above 170 Erlangs and
  below the ceiling, with a positive target, the search raises at its first or second
  agent count.
\<close>

lemma heavy_traffic_overflow:
  assumes "traffic = round_double (round_double (contacts * aht)
                        / round_double (real_of_int (max 1 interval_seconds)))"
    and "170 < traffic" and "traffic < real_of_int max_agents"
    and "0 < aht" and "0 < thr" and "0 < target"
  shows "required_agents_for_sla contacts interval_seconds aht thr target max_agents
       = Inl OverflowError"
proof -
  define start where "start = max 1 \<lceil>traffic\<rceil>"
  have c: "171 \<le> \<lceil>traffic\<rceil>"
    using assms(2) by (simp add: le_ceiling_iff)
  then have start: "start = \<lceil>traffic\<rceil>" and big: "171 \<le> start"
    by (simp_all add: start_def)
  have le: "start \<le> max_agents"
    unfolding start using assms(3) by (simp add: ceiling_le_iff)
  have raise: "erlang_c_service_level traffic n aht thr = Inl OverflowError"
    if "171 \<le> n" and "traffic < real_of_int n" for n
  proof -
    have "erlang_c_prob_wait traffic n = Inl OverflowError"
      using that assms(2) by (intro many_agents_overflow) simp_all
    then show ?thesis
      using that assms(2,4,5) by (simp add: erlang_c_service_level_def)
  qed
  have "sla_search traffic aht thr target max_agents [start..max_agents] = Inl OverflowError"
  proof (cases "traffic < real_of_int start")
    case True
    have "[start..max_agents] = start # [start + 1..max_agents]"
      using le by (simp add: upto_rec1)
    with raise [OF big True] show ?thesis by simp
  next
    case False
    then have eq: "traffic = real_of_int start"
      unfolding start using le_of_int_ceiling [of traffic] by linarith
    then have "start < max_agents"
      using assms(3) by simp
    then have "[start..max_agents] = start # (start + 1) # [start + 1 + 1..max_agents]"
      by (simp add: upto_rec1)
    moreover have "erlang_c_service_level traffic start aht thr = Inr 0"
      using eq big assms(4,5) by (simp add: erlang_c_service_level_def)
    moreover have "erlang_c_service_level traffic (start + 1) aht thr = Inl OverflowError"
      using big eq by (intro raise) simp_all
    ultimately show ?thesis
      using assms(6) by simp
  qed
  then show ?thesis
    using assms(1) by (simp add: required_agents_for_sla_def Let_def start_def)
qed

text \<open>
  So does the overflow of the product \<^verbatim>\<open>contacts * aht_seconds\<close>: the traffic is
  infinite and its ceiling raises, whatever the ceiling of the search.
\<close>

lemma infinite_traffic_overflow:
  "float_overflows (contacts * aht) \<Longrightarrow>
     required_agents_for_sla contacts interval_seconds aht thr target max_agents
       = Inl OverflowError"
  by (simp add: required_agents_for_sla_def)

lemma infinite_traffic_example:
  "required_agents_for_sla (10 ^ 308) 1 10 20 (8 / 10) 500 = Inl OverflowError"
  by (rule infinite_traffic_overflow) (simp add: float_overflows_def)

section \<open>When the solver returns\<close>

text \<open>
  The queueing functions raise only by overflow. When neither the factorial of the agent
  count nor the power \<open>max(1, a) ^ n\<close> leaves the range of a double, the service level
  returns, and so does the search up to such a ceiling, which is then at most 170, when
  the traffic itself is computed without overflow. (With the default ceiling 500 the
  search returns when it stops early, as in the examples of the solver above.)
\<close>

lemma float_overflows_mono:
  assumes "\<bar>x\<bar> \<le> \<bar>y\<bar>" and "\<not> float_overflows y"
  shows "\<not> float_overflows x"
  using assms unfolding float_overflows_def by linarith

lemma series_loop_returns:
  assumes "\<forall>k\<in>set ks. \<not> float_overflows (a ^ k) \<and> \<not> float_overflows (real (fact k))"
  shows "\<exists>r. series_loop a ks s = Inr r"
  using assms
  by (induction ks arbitrary: s) (simp_all add: float_pow_def factorial_def)

lemma small_powers_fit:
  assumes "0 < a" and "k \<le> n" and "\<not> float_overflows (max 1 a ^ n)"
  shows "\<not> float_overflows (a ^ k)"
proof -
  have "a ^ k \<le> max 1 a ^ k"
    using assms(1) by (intro power_mono) simp_all
  also have "\<dots> \<le> max 1 a ^ n"
    using assms(2) by (intro power_increasing) simp_all
  finally have "\<bar>a ^ k\<bar> \<le> \<bar>max 1 a ^ n\<bar>"
    using assms(1) by simp
  then show ?thesis
    using assms(3) by (rule float_overflows_mono)
qed

lemma small_facts_fit:
  assumes "k \<le> n" and "\<not> float_overflows (real (fact n))"
  shows "\<not> float_overflows (real (fact k))"
proof -
  have "(fact k :: nat) \<le> fact n"
    using assms(1) by (rule fact_mono)
  then have "\<bar>real (fact k)\<bar> \<le> \<bar>real (fact n)\<bar>"
    by (simp only: abs_of_nat of_nat_le_iff)
  then show ?thesis
    using assms(2) by (rule float_overflows_mono)
qed

lemma prob_wait_returns:
  assumes "\<not> float_overflows (real (fact (nat n)))"
    and "\<not> float_overflows (max 1 a ^ nat n)"
  shows "\<exists>pw. erlang_c_prob_wait a n = Inr pw"
proof (cases "n \<le> 0 \<or> a \<le> 0 \<or> real_of_int n \<le> a")
  case True
  then show ?thesis by (auto simp: erlang_c_prob_wait_def)
next
  case False
  then have a: "0 < a" by simp
  have "\<forall>k\<in>set [0..<nat n]. \<not> float_overflows (a ^ k) \<and> \<not> float_overflows (real (fact k))"
    using small_powers_fit [OF a _ assms(2)] small_facts_fit [OF _ assms(1)] by simp
  then obtain s where "series_loop a [0..<nat n] 0 = Inr s"
    using series_loop_returns by blast
  moreover have "float_pow a (nat n) = Inr (a ^ nat n)"
    using small_powers_fit [OF a order_refl assms(2)] by (simp add: float_pow_def)
  moreover have "factorial (nat n) = Inr (real (fact (nat n)))"
    using assms(1) by (simp add: factorial_def)
  ultimately show ?thesis
    using False by (simp add: erlang_c_prob_wait_def Let_def)
qed

lemma service_level_returns:
  assumes "\<not> float_overflows (real (fact (nat n)))"
    and "\<not> float_overflows (max 1 a ^ nat n)"
  shows "\<exists>x. erlang_c_service_level a n aht thr = Inr x"
proof -
  from prob_wait_returns [OF assms] obtain pw where "erlang_c_prob_wait a n = Inr pw"
    by blast
  then show ?thesis
    by (simp add: erlang_c_service_level_def Let_def)
qed

lemma sla_search_returns:
  assumes "\<forall>n\<in>set ns. \<exists>x. erlang_c_service_level traffic n aht thr = Inr x"
  shows "\<exists>r. sla_search traffic aht thr target mx ns = Inr r"
  using assms by (induction ns) auto

lemma required_agents_for_sla_returns:
  assumes "traffic = round_double (round_double (contacts * aht)
                        / round_double (real_of_int (max 1 interval_seconds)))"
    and "\<not> float_overflows (real (fact (nat max_agents)))"
    and "\<not> float_overflows (max 1 traffic ^ nat max_agents)"
    and "\<not> float_overflows (contacts * aht)"
    and "\<not> float_overflows (real_of_int (max 1 interval_seconds))"
  shows "\<exists>n. required_agents_for_sla contacts interval_seconds aht thr target max_agents = Inr n"
proof -
  have "\<exists>x. erlang_c_service_level traffic n aht thr = Inr x" if "n \<le> max_agents" for n
  proof -
    have le: "nat n \<le> nat max_agents" using that by simp
    have "\<not> float_overflows (real (fact (nat n)))"
      using small_facts_fit [OF le assms(2)] .
    moreover have "\<not> float_overflows (max 1 traffic ^ nat n)"
    proof -
      have "max 1 traffic ^ nat n \<le> max 1 traffic ^ nat max_agents"
        using le by (intro power_increasing) simp_all
      then have "\<bar>max 1 traffic ^ nat n\<bar> \<le> \<bar>max 1 traffic ^ nat max_agents\<bar>"
        by simp
      then show ?thesis using assms(3) by (rule float_overflows_mono)
    qed
    ultimately show ?thesis by (rule service_level_returns)
  qed
  then have "\<forall>n\<in>set [max 1 \<lceil>traffic\<rceil>..max_agents].
      \<exists>x. erlang_c_service_level traffic n aht thr = Inr x"
    by simp
  from sla_search_returns [OF this] show ?thesis
    using assms(1,4,5) by (simp add: required_agents_for_sla_def Let_def)
qed

section \<open>From available to scheduled agents\<close>

text \<open>
  Over the reals the formula of the conversion does what it is meant to do: with \<open>r\<close> the
  shrinkage rate clamped to \<open>[0, 0.95]\<close>, the scheduled count is \<open>ceil(available / (1 - r))\<close>
  (the floor \<open>1e-9\<close> on the divisor is never active), and \<open>floor(scheduled * (1 - r))\<close>
  gives back at least the required available count. The code computes the formula in
  doubles, where this fails.
\<close>

lemma scheduled_covers_available:
  fixes A :: int and s :: real
  defines "r \<equiv> max 0 (min (95 / 100) s)"
  defines "S \<equiv> \<lceil>real_of_int A / max (1 / 10 ^ 9) (1 - r)\<rceil>"
  shows "S = \<lceil>real_of_int A / (1 - r)\<rceil>" and "A \<le> \<lfloor>real_of_int S * (1 - r)\<rfloor>"
proof -
  have r: "r \<le> 95 / 100" by (simp add: r_def)
  then have q: "0 < 1 - r" by simp
  from r have "1 / 10 ^ 9 \<le> 1 - r" by simp
  then have guard: "max (1 / 10 ^ 9) (1 - r) = 1 - r" by (rule max_absorb2)
  show eq: "S = \<lceil>real_of_int A / (1 - r)\<rceil>"
    by (simp only: S_def guard)
  have "real_of_int A / (1 - r) \<le> real_of_int S"
    unfolding eq by (rule le_of_int_ceiling)
  then have "real_of_int A \<le> real_of_int S * (1 - r)"
    using q by (simp add: pos_divide_le_eq)
  then show "A \<le> \<lfloor>real_of_int S * (1 - r)\<rfloor>"
    by (simp add: le_floor_iff)
qed

text \<open>
  The rounding goes both ways. For 21 contacts of 900 seconds in 900 seconds and
  shrinkage \<^verbatim>\<open>0.3\<close> the quotient \<^verbatim>\<open>21 / (1.0 - 0.3)\<close>, which is 30 over the reals, is a
  double above 30, and the solver schedules 31. A count of contacts above \<open>2^53\<close> is
  rounded by the product with the handle time.
\<close>

lemma throughput_21:
  "required_agents_throughput 21 900 900 (round_double (3 / 10)) 1
     = Inr \<lparr>available_agents = 21, scheduled_agents = 31\<rparr>"
  by (simp add: required_agents_throughput_def Let_def double_values)

lemma throughput_rounds_contacts:
  "required_agents_throughput (2 ^ 53 + 1) 1 1 0 1
     = Inr \<lparr>available_agents = 2 ^ 53, scheduled_agents = 2 ^ 53\<rparr>"
  by (simp add: required_agents_throughput_def Let_def double_values)

lemma throughput_51:
  "required_agents_throughput 51 900 900 (round_double (32 / 100)) 1
     = Inr \<lparr>available_agents = 51, scheduled_agents = 75\<rparr>"
  by (simp add: required_agents_throughput_def Let_def double_values)

lemma available_double_75: "available_double 75 (round_double (32 / 100)) = 50"
  by (simp add: available_double_def double_values)

text \<open>
  C8 asks that \<open>floor(S * (1 - r)) \<ge> A\<close> for the scheduled count \<open>S\<close> that the solver derives
  from the required available count \<open>A\<close>. For 51 contacts of 900 seconds in an interval
  of 900 seconds and shrinkage \<^verbatim>\<open>0.32\<close>, the throughput solver requires \<open>A = 51\<close> available
  agents and schedules \<open>S = 75\<close>; the available agents of 75 scheduled ones, computed as
  the code does, are 50.
\<close>

theorem shrinkage_round_trip_fails_in_doubles:
  "required_agents_throughput 51 900 900 (round_double (32 / 100)) 1
     = Inr \<lparr>available_agents = 51, scheduled_agents = 75\<rparr>
 \<and> available_double 75 (round_double (32 / 100)) = 50
 \<and> (50::int) < 51"
  using throughput_51 available_double_75 by simp

section \<open>The fitted trend\<close>

text \<open>
  The daily frame has one row for each calendar day from the first training row to the
  last, and the rows of a day add up to its total: summing per key over a list of
  distinct keys that holds every row's key gives the sum over all rows.
\<close>

lemma sum_if_distinct:
  fixes h :: "'a \<Rightarrow> real"
  assumes "distinct ds" and "a \<in> set ds"
  shows "(\<Sum>d\<leftarrow>ds. if a = d then h d else 0) = h a"
proof -
  have "(\<Sum>d\<leftarrow>ds. if a = d then h d else 0) = (\<Sum>d\<in>set ds. if a = d then h d else 0)"
    using assms(1) by (rule sum_list_distinct_conv_sum_set)
  also have "\<dots> = h a"
    using assms(2) by simp
  finally show ?thesis .
qed

lemma sum_by_key:
  fixes f :: "'r \<Rightarrow> real"
  assumes "distinct ds" and "\<forall>r\<in>set rows. g r \<in> set ds"
  shows "(\<Sum>d\<leftarrow>ds. sum_list (map f (filter (\<lambda>r. g r = d) rows))) = sum_list (map f rows)"
  using assms(2)
proof (induction rows)
  case Nil
  show ?case by simp
next
  case (Cons r rs)
  have "(\<Sum>d\<leftarrow>ds. sum_list (map f (filter (\<lambda>r. g r = d) (r # rs))))
      = (\<Sum>d\<leftarrow>ds. (if g r = d then f r else 0)
                    + sum_list (map f (filter (\<lambda>r. g r = d) rs)))"
    by (intro arg_cong [where f = sum_list] map_cong) simp_all
  also have "\<dots> = (\<Sum>d\<leftarrow>ds. if g r = d then f r else 0)
      + (\<Sum>d\<leftarrow>ds. sum_list (map f (filter (\<lambda>r. g r = d) rs)))"
    by (rule sum_list_addf)
  also have "(\<Sum>d\<leftarrow>ds. if g r = d then f r else 0) = f r"
    using sum_if_distinct [OF assms(1), of "g r" "\<lambda>_. f r"] Cons.prems by simp
  also have "(\<Sum>d\<leftarrow>ds. sum_list (map f (filter (\<lambda>r. g r = d) rs))) = sum_list (map f rs)"
    using Cons by simp
  finally show ?case by simp
qed

text \<open>
  C9 as stated fails when the training days are the days that have training rows: a
  series with rows on two days only, a week apart, has 2 training days, spans 8 calendar
  days, and is fitted by least squares over the 8 daily totals, with slope \<open>5/6\<close>.
\<close>

theorem training_days_counterexample:
  "length (remdups (map (day_of \<circ> interval_start) gap_series)) = 2
 \<and> (2 :: nat) < 7
 \<and> trend_slope (fit_profile_and_trend gap_series 60) = 5 / 6
 \<and> (5 / 6 :: real) \<noteq> 0"
proof -
  have "[0..7 :: int] = [0, 1, 2, 3, 4, 5, 6, 7]"
    by (simp add: upto_rec1)
  then have daily: "daily_totals gap_series = [10, 0, 0, 0, 0, 0, 0, 20]"
    by (simp add: daily_totals_def gap_series_def day_of_def)
  have "[0..<8] = [0, 1, 2, 3, 4, 5, 6, 7]"
    by (simp add: upt_rec)
  then have "trend_slope (fit_profile_and_trend gap_series 60) = 5 / 6"
    by (simp add: fit_profile_and_trend_def daily Let_def mean_def power2_eq_square)
  then show ?thesis
    by (simp add: gap_series_def day_of_def)
qed

text \<open>
  C9, amended. A training series whose rows span fewer than 7 calendar days, counted
  from the day of the first row to the day of the last with the days without rows
  included, is fitted with trend slope exactly 0 and with trend intercept the whole
  offered volume divided by that number of calendar days (the mean of the daily totals,
  a day without rows counting as 0). A series without rows is fitted with slope 0 and
  intercept 0.
\<close>

theorem flat_trend_below_one_week:
  "(df = [] \<longrightarrow>
      trend_slope (fit_profile_and_trend df im) = 0
    \<and> trend_intercept (fit_profile_and_trend df im) = 0)
 \<and> (df \<noteq> []
      \<and> Max (set (map (day_of \<circ> interval_start) df))
          - Min (set (map (day_of \<circ> interval_start) df)) + 1 < 7 \<longrightarrow>
      trend_slope (fit_profile_and_trend df im) = 0
    \<and> trend_intercept (fit_profile_and_trend df im)
        = sum_list (map offered_contacts df)
          / real_of_int (Max (set (map (day_of \<circ> interval_start) df))
                          - Min (set (map (day_of \<circ> interval_start) df)) + 1))"
proof (intro conjI impI)
  assume "df = []"
  then have "daily_totals df = []"
    by (simp add: daily_totals_def)
  then show "trend_slope (fit_profile_and_trend df im) = 0"
    and "trend_intercept (fit_profile_and_trend df im) = 0"
    by (simp_all add: fit_profile_and_trend_def Let_def)
next
  assume a: "df \<noteq> []
    \<and> Max (set (map (day_of \<circ> interval_start) df))
        - Min (set (map (day_of \<circ> interval_start) df)) + 1 < 7"
  define days where "days = map (\<lambda>r. day_of (interval_start r)) df"
  have comp: "map (day_of \<circ> interval_start) df = days"
    by (simp add: days_def comp_def)
  have daily: "daily_totals df
      = map (\<lambda>d. sum_list (map offered_contacts
                    (filter (\<lambda>r. day_of (interval_start r) = d) df)))
          [Min (set days)..Max (set days)]"
    using a by (simp add: daily_totals_def Let_def days_def)
  have "days \<noteq> []"
    using a by (simp add: days_def)
  then have "hd days \<in> set days"
    by simp
  then have "Min (set days) \<le> hd days" and "hd days \<le> Max (set days)"
    by simp_all
  then have le: "Min (set days) \<le> Max (set days)"
    by linarith
  have len: "int (length (daily_totals df)) = Max (set days) - Min (set days) + 1"
    unfolding daily using le by simp
  have total: "sum_list (daily_totals df) = sum_list (map offered_contacts df)"
    unfolding daily by (intro sum_by_key) (simp_all add: days_def)
  from a len have short: "length (daily_totals df) < 7" and some: "length (daily_totals df) \<noteq> 0"
    unfolding comp using le by auto
  from short show "trend_slope (fit_profile_and_trend df im) = 0"
    by (simp add: fit_profile_and_trend_def Let_def)
  have "real (length (daily_totals df)) = real_of_int (Max (set days) - Min (set days) + 1)"
    using len by (metis of_int_of_nat_eq)
  with short some
  show "trend_intercept (fit_profile_and_trend df im)
      = sum_list (map offered_contacts df)
        / real_of_int (Max (set (map (day_of \<circ> interval_start) df))
                        - Min (set (map (day_of \<circ> interval_start) df)) + 1)"
    unfolding comp by (simp add: fit_profile_and_trend_def Let_def mean_def total)
qed

theorem flat_trend_below_one_week_witness:
  "three_day_window \<noteq> []
 \<and> trend_slope (fit_profile_and_trend three_day_window 60) = 0
 \<and> trend_intercept (fit_profile_and_trend three_day_window 60) = 10"
proof -
  have "[0..2 :: int] = [0, 1, 2]"
    by (simp add: upto_rec1)
  then have daily: "daily_totals three_day_window = [10, 0, 20]"
    by (simp add: daily_totals_def three_day_window_def day_of_def)
  have direct: "trend_intercept (fit_profile_and_trend three_day_window 60) = 10"
    by (simp add: fit_profile_and_trend_def daily Let_def mean_def)
  from flat_trend_below_one_week [of three_day_window 60] direct show ?thesis
    by (simp add: three_day_window_def day_of_def)
qed

section \<open>The projection\<close>

text \<open>
  The key string determines the slot: digits hold neither the separator nor the sign,
  and the digits of a number determine it.
\<close>

lemma digit_char_code:
  assumes "d < 10"
  shows "(of_char (char_of (48 + d :: nat)) :: nat) = 48 + d"
  using assms by simp

lemma digits_value_digits: "digits_value (digits n) = n"
proof (induction n rule: digits.induct)
  case (1 n)
  show ?case
  proof (cases "n < 10")
    case True
    then show ?thesis
      by (subst digits.simps) (simp add: digits_value_def)
  next
    case False
    have "n mod 10 < 10" by simp
    then have c: "(of_char (char_of (48 + n mod 10)) :: nat) = 48 + n mod 10"
      by (rule digit_char_code)
    have "digits_value (digits n)
        = 10 * digits_value (digits (n div 10)) + (of_char (char_of (48 + n mod 10)) - 48)"
      using False by (subst digits.simps) (simp add: digits_value_def)
    also have "\<dots> = 10 * (n div 10) + n mod 10"
      using "1.IH" [OF False] c by simp
    finally show ?thesis by simp
  qed
qed

lemma digits_inject: "digits n = digits m \<Longrightarrow> n = m"
  using digits_value_digits by metis

lemma digits_chars: "c \<in> set (digits n) \<Longrightarrow> \<exists>d::nat. d < 10 \<and> c = char_of (48 + d)"
proof (induction n rule: digits.induct)
  case (1 n)
  show ?case
  proof (cases "n < 10")
    case True
    with "1.prems" show ?thesis
      by (subst (asm) digits.simps) auto
  next
    case False
    from "1.prems" False have "c \<in> set (digits (n div 10)) \<or> c = char_of (48 + n mod 10)"
      by (subst (asm) digits.simps) auto
    then show ?thesis
    proof
      assume "c \<in> set (digits (n div 10))"
      with "1.IH" [OF False] show ?thesis by blast
    next
      assume "c = char_of (48 + n mod 10)"
      moreover have "n mod 10 < 10" by simp
      ultimately show ?thesis by blast
    qed
  qed
qed

lemma digits_no_separator: "CHR ''_'' \<notin> set (digits n)" and digits_no_sign: "CHR ''-'' \<notin> set (digits n)"
proof -
  have "c \<noteq> CHR ''_'' \<and> c \<noteq> CHR ''-''" if "c \<in> set (digits n)" for c
  proof -
    from digits_chars [OF that] obtain d :: nat where d: "d < 10" and c: "c = char_of (48 + d)"
      by blast
    have "(of_char c :: nat) = 48 + d"
      unfolding c using d by (rule digit_char_code)
    then have "(of_char c :: nat) < 58" and "48 \<le> (of_char c :: nat)"
      using d by simp_all
    then show ?thesis by auto
  qed
  then show "CHR ''_'' \<notin> set (digits n)" and "CHR ''-'' \<notin> set (digits n)"
    by blast+
qed

lemma str_int_no_separator: "CHR ''_'' \<notin> set (str_int i)"
  by (simp add: str_int_def digits_no_separator)

lemma str_int_inject:
  assumes "str_int i = str_int j"
  shows "i = j"
proof -
  have neg: False if "k < 0" and "0 \<le> l" and "str_int k = str_int l" for k l
  proof -
    from that have "CHR ''-'' \<in> set (digits (nat l))"
      by (simp add: str_int_def) (metis list.set_intros(1))
    with digits_no_sign show False by blast
  qed
  consider "i < 0" "j < 0" | "i < 0" "0 \<le> j" | "0 \<le> i" "j < 0" | "0 \<le> i" "0 \<le> j"
    by linarith
  then show ?thesis
  proof cases
    case 1
    with assms have "digits (nat (- i)) = digits (nat (- j))"
      by (simp add: str_int_def)
    then have "nat (- i) = nat (- j)" by (rule digits_inject)
    with 1 show ?thesis by simp
  next
    case 2
    with neg assms show ?thesis by blast
  next
    case 3
    with neg [of j i] assms show ?thesis by simp
  next
    case 4
    with assms have "digits (nat i) = digits (nat j)"
      by (simp add: str_int_def)
    then have "nat i = nat j" by (rule digits_inject)
    with 4 show ?thesis by simp
  qed
qed

lemma slot_key_inject:
  assumes "slot_key d b = slot_key d' b'"
  shows "d = d' \<and> b = b'"
proof -
  have split: "takeWhile (\<lambda>c. c \<noteq> CHR ''_'') (str_int x @ ''_'' @ ys) = str_int x" for x ys
  proof -
    have "\<forall>c\<in>set (str_int x). c \<noteq> CHR ''_''"
      using str_int_no_separator [of x] by auto
    then show ?thesis
      by (simp add: takeWhile_tail)
  qed
  from assms have "takeWhile (\<lambda>c. c \<noteq> CHR ''_'') (slot_key d b)
      = takeWhile (\<lambda>c. c \<noteq> CHR ''_'') (slot_key d' b')"
    by simp
  then have eq: "str_int d = str_int d'"
    unfolding slot_key_def split .
  with assms have "str_int b = str_int b'"
    by (simp add: slot_key_def)
  with eq show ?thesis
    using str_int_inject by blast
qed

lemma slot_key_eq_iff: "slot_key d b = slot_key d' b' \<longleftrightarrow> d = d' \<and> b = b'"
  using slot_key_inject by blast

text \<open>The fitted profile has one row per slot.\<close>

lemma median_profile_distinct:
  "distinct (map (\<lambda>q. (dow q, bucket q)) (median_profile df im))"
  by (simp add: median_profile_def comp_def)

text \<open>
  C10. For the row \<open>i\<close> of the projection index, at timestamp \<open>ts\<close>, let \<open>k\<close> be the
  number of distinct days of the index before the day of \<open>ts\<close> (the zero-based dense rank
  of its day within the index itself) and \<open>day_total = max(0, intercept + slope * k)\<close>.
  \<^verbatim>\<open>_forecast_series\<close> returns one value per row of the index. On the first day of the
  index \<open>k\<close> is 0 and the daily total is \<open>max(0, trend_intercept)\<close>, whatever the training
  window was. When the profile (with one row per key, as the fitted one has) holds the
  slot of \<open>ts\<close>, the forecast of row \<open>i\<close> is the profile value times the daily total
  divided by the sum of the profile over that weekday, floored at \<open>1e-6\<close>. When the
  profile does not hold the slot, the forecast of row \<open>i\<close> is exactly 0.
\<close>

theorem projection_restarts_trend:
  assumes "i < length future_index"
    and "ts = future_index ! i"
    and "k = card {d \<in> day_of ` set future_index. d < day_of ts}"
    and "day_total = max 0 (trend_intercept model + trend_slope model * real k)"
  shows "length (forecast_series model future_index im) = length future_index
       \<and> ((\<forall>t\<in>set future_index. day_of ts \<le> day_of t) \<longrightarrow>
            k = 0 \<and> day_total = max 0 (trend_intercept model))
       \<and> (r \<in> set (profile model) \<and> dow r = dayofweek ts \<and> bucket r = time_bucket ts im
            \<and> distinct (map (\<lambda>q. (dow q, bucket q)) (profile model)) \<longrightarrow>
            forecast_series model future_index im ! i
              = profile_value r
                * (day_total / max (1 / 10 ^ 6)
                     (sum_list (map profile_value
                        (filter (\<lambda>q. dow q = dayofweek ts) (profile model))))))
       \<and> ((dayofweek ts, time_bucket ts im)
              \<notin> set (map (\<lambda>q. (dow q, bucket q)) (profile model)) \<longrightarrow>
            forecast_series model future_index im ! i = 0)"
proof (intro conjI impI)
  define prof where "prof = profile model"
  define key where "key = slot_key (dayofweek ts) (time_bucket ts im)"
  define entries where
    "entries = map (\<lambda>q. (slot_key (dow q) (bucket q), profile_value q)) prof"
  show "length (forecast_series model future_index im) = length future_index"
    by (simp add: forecast_series_def)
  have at: "forecast_series model future_index im ! i = forecast_at model future_index im ts"
    using assms(1,2) by (simp add: forecast_series_def)
  have "set (filter (\<lambda>d. d < day_of ts) (map day_of future_index))
      = {d \<in> day_of ` set future_index. d < day_of ts}"
    by auto
  then have rank: "day_ord future_index ts = real k"
    by (simp add: day_ord_def length_remdups_card_conv assms(3))
  have dtot: "daily_total model future_index ts = day_total"
    by (simp add: daily_total_def rank assms(4))
  have lookup: "prof_map prof = map_of (rev entries)"
    by (simp add: prof_map_def entries_def)
  have "value": "forecast_at model future_index im ts
      = (case map_of (rev entries) key of Some v \<Rightarrow> v | None \<Rightarrow> 0)
        * (day_total / expected_total prof (dayofweek ts))"
    by (simp add: forecast_at_def dtot lookup [symmetric] prof_def key_def)
  {
    assume first: "\<forall>t\<in>set future_index. day_of ts \<le> day_of t"
    then have "{d \<in> day_of ` set future_index. d < day_of ts} = {}"
      by auto
    then show "k = 0"
      by (simp add: assms(3))
    then show "day_total = max 0 (trend_intercept model)"
      by (simp add: assms(4))
  }
  {
    assume p: "r \<in> set (profile model) \<and> dow r = dayofweek ts \<and> bucket r = time_bucket ts im
      \<and> distinct (map (\<lambda>q. (dow q, bucket q)) (profile model))"
    have inj: "inj_on (\<lambda>p. slot_key (fst p) (snd p)) (set (map (\<lambda>q. (dow q, bucket q)) prof))"
      by (rule inj_onI) (auto dest: slot_key_inject)
    have "distinct (map (\<lambda>p. slot_key (fst p) (snd p)) (map (\<lambda>q. (dow q, bucket q)) prof))"
      using p inj by (simp only: distinct_map simp_thms prof_def)
    then have "distinct (map fst (rev entries))"
      by (simp add: entries_def comp_def rev_map [symmetric])
    moreover have "(key, profile_value r) \<in> set (rev entries)"
    proof -
      from p have "r \<in> set prof"
        by (simp add: prof_def)
      then have "(slot_key (dow r) (bucket r), profile_value r) \<in> set (rev entries)"
        by (force simp: entries_def)
      with p show ?thesis
        by (simp add: key_def)
    qed
    ultimately have "map_of (rev entries) key = Some (profile_value r)"
      by (rule map_of_is_SomeI)
    moreover have "expected_total prof (dayofweek ts)
        = max (1 / 10 ^ 6)
            (sum_list (map profile_value (filter (\<lambda>q. dow q = dayofweek ts) prof)))"
    proof -
      from p have "r \<in> set prof" and d: "dow r = dayofweek ts"
        by (simp_all add: prof_def)
      then have "dow r \<in> dow ` set prof"
        by (intro imageI)
      then have "dayofweek ts \<in> set (map dow prof)"
        by (simp only: d set_map)
      then show ?thesis
        by (simp add: expected_total_def prof_totals_def)
    qed
    ultimately show "forecast_series model future_index im ! i
        = profile_value r
          * (day_total / max (1 / 10 ^ 6)
               (sum_list (map profile_value
                  (filter (\<lambda>q. dow q = dayofweek ts) (profile model)))))"
      by (simp add: at "value" prof_def)
  }
  {
    assume miss: "(dayofweek ts, time_bucket ts im)
      \<notin> set (map (\<lambda>q. (dow q, bucket q)) (profile model))"
    have "key \<notin> fst ` set (rev entries)"
    proof
      assume "key \<in> fst ` set (rev entries)"
      then obtain q where q: "q \<in> set prof" and "key = slot_key (dow q) (bucket q)"
        by (auto simp: entries_def)
      then have "dayofweek ts = dow q \<and> time_bucket ts im = bucket q"
        unfolding key_def by (intro slot_key_inject)
      with q miss show False
        by (auto simp: prof_def)
    qed
    then have "map_of (rev entries) key = None"
      by (simp only: map_of_eq_None_iff not_False_eq_True)
    then show "forecast_series model future_index im ! i = 0"
      by (simp add: at "value")
  }
qed

lemma three_day_ranks:
  "{d \<in> day_of ` set three_day_index. d < day_of 172800} = {0, 1}"
  "{d \<in> day_of ` set three_day_index. d < day_of 3600} = {}"
  "{d \<in> day_of ` set three_day_index. d < day_of 0} = {}"
  by (auto simp: three_day_index_def day_of_def)

theorem projection_restarts_trend_witness:
  "forecast_series weekend_model three_day_index 60 ! 3 = 208 / 5
 \<and> forecast_series weekend_model three_day_index 60 ! 1 = 0
 \<and> forecast_series weekend_model three_day_index 60 ! 0 = 100"
proof -
  have slots: "dayofweek 172800 = 5" "time_bucket 172800 60 = 0"
    "dayofweek 3600 = 3" "time_bucket 3600 60 = 1"
    "dayofweek 0 = 3" "time_bucket 0 60 = 0"
    "dayofweek 86400 = 4" "time_bucket 86400 60 = 0"
    by (simp_all add: dayofweek_def day_of_def time_bucket_def hour_of_def minute_of_def)
  have direct: "forecast_series weekend_model three_day_index 60 = [100, 0, 0, 208 / 5]"
    by (simp add: forecast_series_def forecast_at_def prof_map_def slot_key_eq_iff
        expected_total_def prof_totals_def daily_total_def day_ord_def weekend_model_def
        three_day_index_def slots day_of_def)
  have a: "forecast_series weekend_model three_day_index 60 ! 3 = 208 / 5"
    using projection_restarts_trend [of 3 three_day_index 172800 2 104 weekend_model 60
        "\<lparr>dow = 5, bucket = 0, profile_value = 4\<rparr>"]
    by (simp add: three_day_ranks slots) (simp add: weekend_model_def three_day_index_def)
  have b: "forecast_series weekend_model three_day_index 60 ! 1 = 0"
    using projection_restarts_trend [of 1 three_day_index 3600 0 100 weekend_model 60]
    by (simp add: three_day_ranks slots) (simp add: weekend_model_def three_day_index_def)
  have c: "forecast_series weekend_model three_day_index 60 ! 0 = 100"
    using projection_restarts_trend [of 0 three_day_index 0 0 100 weekend_model 60
        "\<lparr>dow = 3, bucket = 0, profile_value = 5\<rparr>"]
    by (simp add: three_day_ranks slots) (simp add: weekend_model_def three_day_index_def)
  from a b c direct show ?thesis by simp
qed

section \<open>The scenario simulator\<close>

lemma realtime_keywords_rejected:
  "call_required_agents_realtime
     [(''contacts'', c), (''aht_seconds'', a), (''interval_seconds'', i),
      (''sla_threshold_seconds'', t), (''sla_target'', g), (''shrinkage'', s),
      (''occupancy_cap'', oc)] = Inl TypeError"
  by (simp add: call_required_agents_realtime_def bind_keywords_def
      required_agents_realtime_params_def)

lemma summary_keywords_rejected:
  "call_erlang_c_summary
     [(''contacts'', c), (''aht_seconds'', a), (''interval_seconds'', i),
      (''agents_available'', n), (''sla_threshold_seconds'', t)] = Inl TypeError"
  by (simp add: call_erlang_c_summary_def bind_keywords_def erlang_c_summary_params_def)

lemma throughput_keywords_rejected:
  "call_required_agents_throughput
     [(''contacts'', c), (''aht_seconds'', a), (''interval_seconds'', i),
      (''shrinkage'', s), (''buffer'', b)] = Inl TypeError"
  by (simp add: call_required_agents_throughput_def bind_keywords_def
      required_agents_throughput_params_def)

lemma required_pass_raises: "required_pass interval_seconds scenario row = Inl TypeError"
  by (simp add: required_pass_def Let_def realtime_keywords_rejected
      throughput_keywords_rejected)

lemma simulate_nonempty_raises:
  assumes "forecast_df \<noteq> []"
  shows "simulate_scenario forecast_df staffing_ref interval_minutes scenario = Inl TypeError"
proof -
  from assms obtain f fs where "forecast_df = f # fs"
    by (cases forecast_df) auto
  then show ?thesis
    by (simp add: simulate_scenario_def merge_ref_def Let_def required_pass_raises)
qed

lemma simulate_empty: "simulate_scenario [] staffing_ref interval_minutes scenario = Inr []"
  by (simp add: simulate_scenario_def merge_ref_def)

text \<open>
  C1. The three solver calls of \<^verbatim>\<open>_simulate_scenario\<close> pass keywords that the callees do
  not have (\<open>shrinkage\<close> and \<open>occupancy_cap\<close>; \<open>agents_available\<close>; \<open>shrinkage\<close> and
  \<open>buffer\<close>), so each raises \<^verbatim>\<open>TypeError\<close> whatever the values, and for every non-empty
  forecast the simulator raises \<^verbatim>\<open>TypeError\<close> at its first row: no outcome record is
  produced, for any scenario.
\<close>

theorem simulator_raises_type_error:
  "call_required_agents_realtime
     [(''contacts'', c), (''aht_seconds'', a), (''interval_seconds'', i),
      (''sla_threshold_seconds'', t), (''sla_target'', g), (''shrinkage'', s),
      (''occupancy_cap'', oc)] = Inl TypeError
 \<and> call_erlang_c_summary
     [(''contacts'', c), (''aht_seconds'', a), (''interval_seconds'', i),
      (''agents_available'', n), (''sla_threshold_seconds'', t)] = Inl TypeError
 \<and> call_required_agents_throughput
     [(''contacts'', c), (''aht_seconds'', a), (''interval_seconds'', i),
      (''shrinkage'', s), (''buffer'', b)] = Inl TypeError
 \<and> (forecast_df \<noteq> [] \<longrightarrow>
      simulate_scenario forecast_df staffing_ref interval_minutes scenario = Inl TypeError)"
proof (intro conjI impI)
  show "call_required_agents_realtime
     [(''contacts'', c), (''aht_seconds'', a), (''interval_seconds'', i),
      (''sla_threshold_seconds'', t), (''sla_target'', g), (''shrinkage'', s),
      (''occupancy_cap'', oc)] = Inl TypeError"
    by (rule realtime_keywords_rejected)
  show "call_erlang_c_summary
     [(''contacts'', c), (''aht_seconds'', a), (''interval_seconds'', i),
      (''agents_available'', n), (''sla_threshold_seconds'', t)] = Inl TypeError"
    by (rule summary_keywords_rejected)
  show "call_required_agents_throughput
     [(''contacts'', c), (''aht_seconds'', a), (''interval_seconds'', i),
      (''shrinkage'', s), (''buffer'', b)] = Inl TypeError"
    by (rule throughput_keywords_rejected)
  show "simulate_scenario forecast_df staffing_ref interval_minutes scenario = Inl TypeError"
    if "forecast_df \<noteq> []"
    using that by (rule simulate_nonempty_raises)
qed

theorem simulator_raises_type_error_witness:
  "[email_forecast] \<noteq> []
 \<and> simulate_scenario [email_forecast] [email_ref] 15 base_scenario = Inl TypeError"
  using simulator_raises_type_error [of _ _ _ _ _ _ _ _ _ "[email_forecast]" "[email_ref]" 15
      base_scenario]
  by simp

text \<open>
  With the parameter names of the callee, as \<^verbatim>\<open>generate_sample_data.py\<close> writes the call,
  the keywords bind and the solver runs.
\<close>

lemma generator_keywords_accepted:
  "call_required_agents_throughput
     [(''contacts'', 50), (''aht_seconds'', 720), (''interval_seconds'', 900),
      (''shrinkage_rate'', 1 / 4), (''productivity'', 1)]
   = required_agents_throughput 50 900 720 (1 / 4) 1"
  by (simp add: call_required_agents_throughput_def bind_keywords_def
      required_agents_throughput_params_def)

lemma email_direct:
  "required_agents_throughput 50 900 720 (1 / 4) 1
     = Inr \<lparr>available_agents = 40, scheduled_agents = 54\<rparr>"
  by (simp add: required_agents_throughput_def Let_def double_values)

text \<open>
  C2 asks that the base scenario reproduces the solver's required agents. For one email
  forecast row of 50 contacts with its reference row, at 15 minutes, the solver called
  directly requires 40 available and 54 scheduled agents; the simulator under the base
  scenario raises \<^verbatim>\<open>TypeError\<close> and yields no value.
\<close>

theorem base_scenario_yields_no_agents:
  "demand_multiplier base_scenario = 1 \<and> shrinkage_delta base_scenario = 0
 \<and> simulate_scenario [email_forecast] [email_ref] 15 base_scenario = Inl TypeError
 \<and> required_agents_throughput (forecast_offered email_forecast) (15 * 60)
      (aht_seconds email_ref) (shrinkage_rate email_ref) 1
     = Inr \<lparr>available_agents = 40, scheduled_agents = 54\<rparr>
 \<and> call_required_agents_throughput
     [(''contacts'', 50), (''aht_seconds'', 720), (''interval_seconds'', 900),
      (''shrinkage_rate'', 1 / 4), (''productivity'', 1)]
     = Inr \<lparr>available_agents = 40, scheduled_agents = 54\<rparr>"
  using simulate_nonempty_raises [of "[email_forecast]" "[email_ref]" 15 base_scenario]
    email_direct generator_keywords_accepted
  by (simp add: base_scenario_def DEFAULT_SCENARIOS_def email_forecast_def email_ref_def)

end
